theory Spec2Isabelle
  imports Complex_Main "HOL-Library.Multiset" "HOL-Library.Log_Nat" "HOL-Library.AList"
begin

section \<open>Data model of the time clock\<close>

text \<open>
  The tables \<^verbatim>\<open>clock_employees\<close> and \<^verbatim>\<open>clock_logs\<close> of \<^verbatim>\<open>shared/schema.ts\<close>.
  A row is a record; a table is the list of its rows in storage order. The audit
  columns \<^verbatim>\<open>createdAt\<close> and \<^verbatim>\<open>updatedAt\<close> are left out: no operation of the
  clock system reads them.

  \<^item> \<^verbatim>\<open>id\<close> is written \<open>id_emp\<close> and \<open>id_log\<close> (\<open>id\<close> is the identity of HOL),
    \<^verbatim>\<open>type\<close> is written \<open>type_log\<close>.
  \<^item> \<^verbatim>\<open>payRate\<close> is the column \<^verbatim>\<open>numeric(10, 2)\<close>: a decimal number with two
    fractional digits, held here as its number of hundredths (\<open>2500\<close> for
    \<^verbatim>\<open>"25.00"\<close>).
  \<^item> \<^verbatim>\<open>status\<close> is a nullable \<^verbatim>\<open>varchar\<close>: \<open>None\<close> is \<^verbatim>\<open>null\<close>.
  \<^item> \<^verbatim>\<open>timestamp\<close> is a \<^verbatim>\<open>bigint\<close> read as a JavaScript number: milliseconds
    since the epoch, an integer.
\<close>

record ClockEmployee =
  id_emp :: string
  name :: string
  pin :: "string option"
  payRate :: int
  status :: "string option"

record ClockLog =
  id_log :: string
  employeeId :: string
  type_log :: string
  timestamp :: int
  deviceId :: "string option"

record database =
  clockEmployees :: "ClockEmployee list"
  clockLogs :: "ClockLog list"

text \<open>The messages of the \<^verbatim>\<open>Error\<close>s that the clock system throws.\<close>

datatype error =
    EmployeeNotFound
  | InvalidEmployeeStatus
  | FailedToUpdateEmployeeStatus

section \<open>Storage operations\<close>

text \<open>
  \<^verbatim>\<open>getClockEmployee\<close>: the first row whose \<^verbatim>\<open>id\<close> is the one asked for, or
  \<^verbatim>\<open>undefined\<close>.
\<close>

definition getClockEmployee :: "database \<Rightarrow> string \<Rightarrow> ClockEmployee option" where
  "getClockEmployee db i = find (\<lambda>e. id_emp e = i) (clockEmployees db)"

definition getClockEmployees :: "database \<Rightarrow> ClockEmployee list" where
  "getClockEmployees db = clockEmployees db"

text \<open>
  \<^verbatim>\<open>updateClockEmployee\<close>: an SQL \<^verbatim>\<open>UPDATE ... WHERE id = ... RETURNING\<close>. Every
  matching row is rewritten; the first rewritten row is returned, \<^verbatim>\<open>undefined\<close>
  when no row matched. The partial object \<^verbatim>\<open>updates\<close> is a function on rows.
\<close>

definition updateClockEmployee ::
    "string \<Rightarrow> (ClockEmployee \<Rightarrow> ClockEmployee) \<Rightarrow> database \<Rightarrow> ClockEmployee option \<times> database" where
  "updateClockEmployee i updates db =
     (let returning = map updates (filter (\<lambda>e. id_emp e = i) (clockEmployees db));
          db' = db\<lparr>clockEmployees :=
                   map (\<lambda>e. if id_emp e = i then updates e else e) (clockEmployees db)\<rparr>
      in (case returning of [] \<Rightarrow> None | employee # _ \<Rightarrow> Some employee, db'))"

text \<open>
  \<^verbatim>\<open>ORDER BY timestamp DESC\<close> and \<^verbatim>\<open>ORDER BY timestamp\<close>. SQL leaves the order of
  rows with equal timestamps open; here they keep their storage order (a stable
  sort). The comparator sort of JavaScript, \<^verbatim>\<open>sort((a, b) => b.timestamp - a.timestamp)\<close>,
  is stable by the language standard.
\<close>

definition orderByTimestampDesc :: "ClockLog list \<Rightarrow> ClockLog list" where
  "orderByTimestampDesc ls = sort_key (\<lambda>l. - timestamp l) ls"

definition orderByTimestamp :: "ClockLog list \<Rightarrow> ClockLog list" where
  "orderByTimestamp ls = sort_key timestamp ls"

text \<open>
  \<^verbatim>\<open>getClockLogs(employeeId?)\<close>: the test \<^verbatim>\<open>if (employeeId)\<close> fails for
  \<^verbatim>\<open>undefined\<close> and for the empty string.
\<close>

definition getClockLogs :: "database \<Rightarrow> string option \<Rightarrow> ClockLog list" where
  "getClockLogs db employeeId_opt =
     (case employeeId_opt of
        Some i \<Rightarrow>
          if i \<noteq> [] then orderByTimestampDesc (filter (\<lambda>l. employeeId l = i) (clockLogs db))
          else orderByTimestampDesc (clockLogs db)
      | None \<Rightarrow> orderByTimestampDesc (clockLogs db))"

section \<open>The clock state machine\<close>

text \<open>
  \<^verbatim>\<open>lastLog\<close> of \<^verbatim>\<open>clockAction\<close>: the employee's logs, filtered once more by
  employee, sorted by descending timestamp, element \<^verbatim>\<open>[0]\<close> (\<^verbatim>\<open>undefined\<close> on
  the empty array).
\<close>

definition lastLog :: "database \<Rightarrow> string \<Rightarrow> ClockLog option" where
  "lastLog db i =
     (case orderByTimestampDesc (filter (\<lambda>l. employeeId l = i) (getClockLogs db (Some i))) of
        [] \<Rightarrow> None
      | l # _ \<Rightarrow> Some l)"

text \<open>
  The \<^verbatim>\<open>switch (employee.status)\<close> of \<^verbatim>\<open>clockAction\<close>: the new status, the log
  type and the status message, or \<open>None\<close> for the \<^verbatim>\<open>default\<close> branch.
\<close>

definition stateMachine ::
    "database \<Rightarrow> string \<Rightarrow> ClockEmployee \<Rightarrow> (string \<times> string \<times> string) option" where
  "stateMachine db i employee =
     (if status employee = Some ''inactive'' then
        Some (''working'', ''clock-in'', ''Clocked In'')
      else if status employee = Some ''working'' then
        (case lastLog db i of
           Some l \<Rightarrow>
             if type_log l = ''lunch-in'' then Some (''inactive'', ''clock-out'', ''Clocked Out'')
             else Some (''on-lunch'', ''lunch-out'', ''Started Lunch'')
         | None \<Rightarrow> Some (''on-lunch'', ''lunch-out'', ''Started Lunch''))
      else if status employee = Some ''on-lunch'' then
        Some (''working'', ''lunch-in'', ''Ended Lunch'')
      else None)"

record ClockActionResult =
  employee_res :: ClockEmployee
  status_res :: string
  log_res :: ClockLog

text \<open>
  \<^verbatim>\<open>clockAction(employeeId)\<close>. The two readings of the environment are arguments:
  \<open>now\<close> is \<^verbatim>\<open>Date.now()\<close> and \<open>newId\<close> the \<^verbatim>\<open>gen_random_uuid()\<close> default of the
  inserted log row. The result pairs what the call returns or throws with the
  database it leaves behind.
\<close>

definition clockAction ::
    "int \<Rightarrow> string \<Rightarrow> string \<Rightarrow> database \<Rightarrow> (error + ClockActionResult) \<times> database" where
  "clockAction now newId i db =
     (case getClockEmployee db i of
        None \<Rightarrow> (Inl EmployeeNotFound, db)
      | Some employee \<Rightarrow>
          (case stateMachine db i employee of
             None \<Rightarrow> (Inl InvalidEmployeeStatus, db)
           | Some (newStatus, logType, statusMessage) \<Rightarrow>
               (case updateClockEmployee i (\<lambda>e. e\<lparr>status := Some newStatus\<rparr>) db of
                  (None, db1) \<Rightarrow> (Inl FailedToUpdateEmployeeStatus, db1)
                | (Some updatedEmployee, db1) \<Rightarrow>
                    (let log = \<lparr>id_log = newId, employeeId = i, type_log = logType,
                                timestamp = now, deviceId = None\<rparr>;
                         db2 = db1\<lparr>clockLogs := clockLogs db1 @ [log]\<rparr>
                     in (Inr \<lparr>employee_res = updatedEmployee, status_res = statusMessage,
                              log_res = log\<rparr>, db2)))))"

section \<open>JavaScript numbers, number formatting and dates\<close>

text \<open>
  A JavaScript number is an IEEE 754 double. The finite doubles are rational numbers,
  and an arithmetic operation returns the exact result rounded to the nearest double,
  ties to the even significand. \<open>fl\<close> is that rounding: \<open>ilog2 x\<close> is the binary
  exponent of \<open>x\<close>, the spacing of the doubles around \<open>x\<close> is \<open>2 powi (ilog2 x - 52)\<close>,
  and not less than \<open>2 powi (- 1074)\<close>, the spacing of the subnormal numbers. Overflow to
  \<^verbatim>\<open>Infinity\<close> (beyond \<open>2 ^ 1024\<close>) is outside the model.
\<close>

definition ilog2 :: "rat \<Rightarrow> int" where
  "ilog2 x =
     (case quotient_of \<bar>x\<bar> of
        (p, q) \<Rightarrow> (let d = bitlen p - bitlen q in if 2 powi d \<le> \<bar>x\<bar> then d else d - 1))"

definition roundTiesToEven :: "rat \<Rightarrow> int" where
  "roundTiesToEven m =
     (let f = \<lfloor>m\<rfloor>; r = m - of_int f
      in if r < 1 / 2 then f else if 1 / 2 < r then f + 1 else if even f then f else f + 1)"

definition fl :: "rat \<Rightarrow> rat" where
  "fl x =
     (if x = 0 then 0
      else (let k = max (ilog2 x) (- 1022) - 52
            in of_int (roundTiesToEven (x / 2 powi k)) * 2 powi k))"

text \<open>The operators \<^verbatim>\<open>/\<close> and \<^verbatim>\<open>*\<close> on numbers.\<close>

definition num_div :: "rat \<Rightarrow> rat \<Rightarrow> rat" where
  "num_div a b = fl (a / b)"

definition num_mul :: "rat \<Rightarrow> rat \<Rightarrow> rat" where
  "num_mul a b = fl (a * b)"

text \<open>
  \<^verbatim>\<open>parseFloat(employee.payRate)\<close>: the driver hands the \<^verbatim>\<open>numeric(10, 2)\<close> value over
  as its decimal string, and \<^verbatim>\<open>parseFloat\<close> returns the double nearest to the decimal
  number written there.
\<close>

definition parseFloat :: "int \<Rightarrow> rat" where
  "parseFloat hundredths = fl (of_int hundredths / 100)"

text \<open>The decimal digits of a natural number, most significant first.\<close>

definition digitChar :: "int \<Rightarrow> char" where
  "digitChar d = ''0123456789'' ! nat d"

function digits :: "int \<Rightarrow> string" where
  "digits n = (if n < 10 then [digitChar n] else digits (n div 10) @ [digitChar (n mod 10)])"
  by pat_completeness auto
termination
  by (relation "measure nat") auto

declare digits.simps [simp del]

text \<open>
  \<^verbatim>\<open>Number.prototype.toFixed(fractionDigits)\<close> as ECMAScript defines it, for numbers
  below \<open>10 ^ 21\<close> in magnitude: the sign is split off, \<open>n\<close> is the integer for which
  \<open>n / 10 ^ f\<close> is nearest to the number (the larger one of two), its digits are padded
  with zeros to \<open>f + 1\<close> places and the point is put before the last \<open>f\<close>.
\<close>

definition toFixedInteger :: "rat \<Rightarrow> nat \<Rightarrow> int" where
  "toFixedInteger x f = \<lfloor>\<bar>x\<bar> * 10 ^ f + 1 / 2\<rfloor>"

definition toFixed :: "rat \<Rightarrow> nat \<Rightarrow> string" where
  "toFixed x f =
     (let s = (if x < 0 then ''-'' else []);
          n = toFixedInteger x f;
          m = (if n = 0 then ''0'' else digits n);
          m' = (if f \<noteq> 0 then
                  (let mz = (if length m \<le> f then replicate (f + 1 - length m) CHR ''0'' @ m
                             else m);
                       k = length mz
                   in take (k - f) mz @ ''.'' @ drop (k - f) mz)
                else m)
      in s @ m')"

text \<open>
  \<^verbatim>\<open>new Date(t).toISOString().split('T')[0]\<close>: the calendar date of the time value
  \<open>t\<close> in UTC. The day number is \<open>t div msPerDay\<close>, the year, month and day of the month
  follow from the day number by the Gregorian calendar, written as
  \<^verbatim>\<open>YYYY-MM-DD\<close>, with a sign and six digits for a year outside 0 to 9999. A
  \<^verbatim>\<open>Date\<close> is held as its time value, an integer; this is for a valid \<^verbatim>\<open>Date\<close>
  (a time value of magnitude at most \<open>8.64 * 10 ^ 15\<close>).
\<close>

definition msPerDay :: int where
  "msPerDay = 86400000"

definition civilFromDays :: "int \<Rightarrow> int \<times> int \<times> int" where
  "civilFromDays days =
     (let z = days + 719468;
          era = z div 146097;
          doe = z mod 146097;
          yoe = (doe - doe div 1460 + doe div 36524 - doe div 146096) div 365;
          doy = doe - (365 * yoe + yoe div 4 - yoe div 100);
          mp = (5 * doy + 2) div 153;
          d = doy - (153 * mp + 2) div 5 + 1;
          m = (if mp < 10 then mp + 3 else mp - 9);
          y = yoe + era * 400 + (if m \<le> 2 then 1 else 0)
      in (y, m, d))"

definition padStart :: "nat \<Rightarrow> string \<Rightarrow> string" where
  "padStart n s = replicate (n - length s) CHR ''0'' @ s"

definition isoYear :: "int \<Rightarrow> string" where
  "isoYear y =
     (if 0 \<le> y \<and> y \<le> 9999 then padStart 4 (digits y)
      else (if y < 0 then ''-'' else ''+'') @ padStart 6 (digits \<bar>y\<bar>))"

definition toISODate :: "int \<Rightarrow> string" where
  "toISODate t =
     (case civilFromDays (t div msPerDay) of
        (y, m, d) \<Rightarrow> isoYear y @ ''-'' @ padStart 2 (digits m) @ ''-'' @ padStart 2 (digits d))"

section \<open>The time card\<close>

text \<open>
  An entry of \<^verbatim>\<open>dailyReport\<close>, and \<^verbatim>\<open>dailyReport\<close> itself: a JavaScript object
  whose keys are date strings, which it enumerates in the order of their insertion,
  so an association list.
\<close>

record DayReport =
  logs :: "ClockLog list"
  workingTime :: int
  lunchTime :: int

type_synonym dailyReport = "(string \<times> DayReport) list"

text \<open>
  The body of \<^verbatim>\<open>logs.forEach\<close> (\<open>lg\<close> is the source's \<^verbatim>\<open>log\<close>, a name
  that HOL gives to the logarithm): the entry of the log's date is created when the
  object has none, and the log is pushed to the entry's \<^verbatim>\<open>logs\<close>.
\<close>

definition addLog :: "dailyReport \<Rightarrow> ClockLog \<Rightarrow> dailyReport" where
  "addLog report lg =
     (let date = toISODate (timestamp lg);
          report1 = (if map_of report date = None
                     then report @ [(date, \<lparr>logs = [], workingTime = 0, lunchTime = 0\<rparr>)]
                     else report)
      in map (\<lambda>(k, entry). if k = date then (k, entry\<lparr>logs := logs entry @ [lg]\<rparr>)
                              else (k, entry)) report1)"

definition groupLogs :: "ClockLog list \<Rightarrow> dailyReport" where
  "groupLogs ls = foldl addLog [] ls"

text \<open>
  The replay of one day. The two cursors start as \<^verbatim>\<open>null\<close> (\<open>None\<close>) and are tested
  by \<^verbatim>\<open>if (clockInTime)\<close> and \<^verbatim>\<open>if (lunchOutTime)\<close>: a JavaScript condition holds
  for a number other than zero, and fails for \<^verbatim>\<open>null\<close> and for \<^verbatim>\<open>0\<close>.
\<close>

record DayState =
  workingTime_st :: int
  lunchTime_st :: int
  clockInTime :: "int option"
  lunchOutTime :: "int option"

definition replayLog :: "DayState \<Rightarrow> ClockLog \<Rightarrow> DayState" where
  "replayLog st lg =
     (if type_log lg = ''clock-in'' then
        st\<lparr>clockInTime := Some (timestamp lg)\<rparr>
      else if type_log lg = ''lunch-out'' then
        (case clockInTime st of
           Some c \<Rightarrow>
             if c \<noteq> 0 then
               st\<lparr>workingTime_st := workingTime_st st + (timestamp lg - c),
                   lunchOutTime := Some (timestamp lg)\<rparr>
             else st
         | None \<Rightarrow> st)
      else if type_log lg = ''lunch-in'' then
        (case lunchOutTime st of
           Some c \<Rightarrow>
             if c \<noteq> 0 then
               st\<lparr>lunchTime_st := lunchTime_st st + (timestamp lg - c),
                   clockInTime := Some (timestamp lg)\<rparr>
             else st
         | None \<Rightarrow> st)
      else if type_log lg = ''clock-out'' then
        (case clockInTime st of
           Some c \<Rightarrow>
             if c \<noteq> 0 then st\<lparr>workingTime_st := workingTime_st st + (timestamp lg - c)\<rparr>
             else st
         | None \<Rightarrow> st)
      else st)"

definition replayDay :: "ClockLog list \<Rightarrow> DayState" where
  "replayDay dayLogs =
     foldl replayLog
       \<lparr>workingTime_st = 0, lunchTime_st = 0, clockInTime = None, lunchOutTime = None\<rparr> dayLogs"

text \<open>
  The body of \<^verbatim>\<open>Object.keys(dailyReport).forEach\<close>: the entry of the date is read,
  its logs are replayed, the two times are written to the entry and the working time
  is added to \<^verbatim>\<open>totalWorkingTime\<close>. The date is a key of the object, so the entry
  is there.
\<close>

definition processDate :: "dailyReport \<times> int \<Rightarrow> string \<Rightarrow> dailyReport \<times> int" where
  "processDate acc date =
     (case acc of
        (report, totalWorkingTime) \<Rightarrow>
          (case map_of report date of
             None \<Rightarrow> acc
           | Some entry \<Rightarrow>
               (let st = replayDay (logs entry)
                in (AList.update date
                      (entry\<lparr>workingTime := workingTime_st st, lunchTime := lunchTime_st st\<rparr>)
                      report,
                    totalWorkingTime + workingTime_st st))))"

definition processDays :: "dailyReport \<Rightarrow> dailyReport \<times> int" where
  "processDays report = foldl processDate (report, 0) (map fst report)"

record TimeCard =
  employee_tc :: ClockEmployee
  dailyReport_tc :: dailyReport
  totalWorkingTime_tc :: int
  totalPay_tc :: string
  startDate_tc :: string
  endDate_tc :: string

text \<open>
  The query of \<^verbatim>\<open>getEmployeeTimeCard\<close>: the logs of the employee with a timestamp
  from \<^verbatim>\<open>startDate.getTime()\<close> to \<^verbatim>\<open>endDate.getTime()\<close>, ordered by timestamp.
\<close>

definition selectLogs :: "database \<Rightarrow> string \<Rightarrow> int \<Rightarrow> int \<Rightarrow> ClockLog list" where
  "selectLogs db i startDate endDate =
     orderByTimestamp
       (filter (\<lambda>l. employeeId l = i \<and> startDate \<le> timestamp l \<and> timestamp l \<le> endDate)
          (clockLogs db))"

text \<open>
  The number \<^verbatim>\<open>totalPay\<close> of \<^verbatim>\<open>getEmployeeTimeCard\<close>,
  \<^verbatim>\<open>(totalWorkingTime / (1000 * 60 * 60)) * parseFloat(employee.payRate)\<close>, and the
  number whose \<^verbatim>\<open>toFixed(2)\<close> is \<^verbatim>\<open>totalHours\<close> in \<^verbatim>\<open>exportAllHours\<close>,
  \<^verbatim>\<open>timeCard.totalWorkingTime / (1000 * 60 * 60)\<close>.
\<close>

definition hours :: "int \<Rightarrow> rat" where
  "hours totalWorkingTime = num_div (of_int totalWorkingTime) (1000 * 60 * 60)"

definition totalPay :: "int \<Rightarrow> int \<Rightarrow> rat" where
  "totalPay totalWorkingTime rate = num_mul (hours totalWorkingTime) (parseFloat rate)"

text \<open>
  \<^verbatim>\<open>getEmployeeTimeCard(employeeId, startDate, endDate)\<close>. The timestamps of the
  selected logs lie between two valid time values, and the sums of their differences
  are taken as exact: they are integers far below \<open>2 ^ 53\<close>.
\<close>

definition getEmployeeTimeCard :: "database \<Rightarrow> string \<Rightarrow> int \<Rightarrow> int \<Rightarrow> error + TimeCard" where
  "getEmployeeTimeCard db i startDate endDate =
     (case getClockEmployee db i of
        None \<Rightarrow> Inl EmployeeNotFound
      | Some employee \<Rightarrow>
          (case processDays (groupLogs (selectLogs db i startDate endDate)) of
             (report, totalWorkingTime) \<Rightarrow>
               Inr \<lparr>employee_tc = employee,
                    dailyReport_tc = report,
                    totalWorkingTime_tc = totalWorkingTime,
                    totalPay_tc = toFixed (totalPay totalWorkingTime (payRate employee)) 2,
                    startDate_tc = toISODate startDate,
                    endDate_tc = toISODate endDate\<rparr>))"

section \<open>The payroll export\<close>

record ExportEntry =
  employeeId_ex :: string
  employeeName :: string
  payRate_ex :: int
  totalHours :: string
  totalPay_ex :: string
  dailyBreakdown :: dailyReport

record ExportData =
  startDate_ex :: string
  endDate_ex :: string
  employees_ex :: "ExportEntry list"

text \<open>
  The loop of \<^verbatim>\<open>exportAllHours\<close> over the employees, with the array
  \<^verbatim>\<open>exportData\<close> as accumulator; an error thrown by \<^verbatim>\<open>getEmployeeTimeCard\<close> ends
  the loop.
\<close>

fun exportLoop ::
    "database \<Rightarrow> int \<Rightarrow> int \<Rightarrow> ClockEmployee list \<Rightarrow> ExportEntry list \<Rightarrow> error + ExportEntry list" where
  "exportLoop db startDate endDate [] exportData = Inr exportData"
| "exportLoop db startDate endDate (employee # employees) exportData =
     (case getEmployeeTimeCard db (id_emp employee) startDate endDate of
        Inl err \<Rightarrow> Inl err
      | Inr timeCard \<Rightarrow>
          exportLoop db startDate endDate employees
            (exportData @
               [\<lparr>employeeId_ex = id_emp employee,
                 employeeName = name employee,
                 payRate_ex = payRate employee,
                 totalHours = toFixed (hours (totalWorkingTime_tc timeCard)) 2,
                 totalPay_ex = totalPay_tc timeCard,
                 dailyBreakdown = dailyReport_tc timeCard\<rparr>]))"

definition exportAllHours :: "database \<Rightarrow> int \<Rightarrow> int \<Rightarrow> error + ExportData" where
  "exportAllHours db startDate endDate =
     (case exportLoop db startDate endDate (getClockEmployees db) [] of
        Inl err \<Rightarrow> Inl err
      | Inr exportData \<Rightarrow>
          Inr \<lparr>startDate_ex = toISODate startDate,
               endDate_ex = toISODate endDate,
               employees_ex = exportData\<rparr>)"


section \<open>What the specification says of the clock state machine\<close>

text \<open>
  The punch that a clock action creates for employee \<open>i\<close> at time \<open>now\<close>, and the
  outcome that a row of the transition table prescribes for an employee \<open>e\<close> with
  identifier \<open>i\<close>: the call returns the employee with the next status, the label and
  the punch; in the database the status register of \<open>i\<close> holds the next status and
  the punch log has the punch as its one new entry.
\<close>

definition punch :: "string \<Rightarrow> string \<Rightarrow> string \<Rightarrow> int \<Rightarrow> ClockLog" where
  "punch newId i logType now =
     \<lparr>id_log = newId, employeeId = i, type_log = logType, timestamp = now, deviceId = None\<rparr>"

definition transition ::
    "database \<Rightarrow> string \<Rightarrow> ClockEmployee \<Rightarrow> int \<Rightarrow> string \<Rightarrow> string \<Rightarrow> string \<Rightarrow> string
      \<Rightarrow> (error + ClockActionResult) \<times> database" where
  "transition db i e now newId nextStatus punchType label =
     (Inr \<lparr>employee_res = e\<lparr>status := Some nextStatus\<rparr>, status_res = label,
           log_res = punch newId i punchType now\<rparr>,
      db\<lparr>clockEmployees :=
            map (\<lambda>x. if id_emp x = i then x\<lparr>status := Some nextStatus\<rparr> else x)
              (clockEmployees db),
          clockLogs := clockLogs db @ [punch newId i punchType now]\<rparr>)"

text \<open>
  Repeated clock actions of one employee: each call has its own reading of the clock
  and its own new row identifier. \<open>statusOf\<close> reads the status register, \<open>cycle\<close> is
  the cycle of the specification, and \<open>phase db i k\<close> says that employee \<open>i\<close> stands at
  position \<open>k\<close> of the cycle, where the two \<^verbatim>\<open>working\<close> positions differ in the last
  punch.
\<close>

fun repeatClockAction :: "(int \<times> string) list \<Rightarrow> string \<Rightarrow> database \<Rightarrow> database" where
  "repeatClockAction [] i db = db"
| "repeatClockAction ((now, newId) # calls) i db =
     repeatClockAction calls i (snd (clockAction now newId i db))"

definition statusOf :: "database \<Rightarrow> string \<Rightarrow> string option" where
  "statusOf db i = (case getClockEmployee db i of None \<Rightarrow> None | Some e \<Rightarrow> status e)"

definition cycle :: "string list" where
  "cycle = [''inactive'', ''working'', ''on-lunch'', ''working'']"

definition phase :: "database \<Rightarrow> string \<Rightarrow> nat \<Rightarrow> bool" where
  "phase db i k =
     (case getClockEmployee db i of
        None \<Rightarrow> False
      | Some e \<Rightarrow>
          (if k = 0 then status e = Some ''inactive''
           else if k = 1 then
             status e = Some ''working'' \<and> map_option type_log (lastLog db i) = Some ''clock-in''
           else if k = 2 then status e = Some ''on-lunch''
           else status e = Some ''working'' \<and>
                map_option type_log (lastLog db i) = Some ''lunch-in''))"

text \<open>An employee row for the examples.\<close>

definition emp :: "string \<Rightarrow> int \<Rightarrow> string \<Rightarrow> ClockEmployee" where
  "emp i rate st = \<lparr>id_emp = i, name = ''Alice'', pin = None, payRate = rate, status = Some st\<rparr>"

section \<open>What the specification says of the time card\<close>

text \<open>
  The replay of one day in the words of the specification: a cursor is unset
  (\<open>None\<close>) or set to a timestamp, and a punch whose cursor is set adds the time since
  the cursor. The code differs in its test of the cursor, which also fails for a
  cursor that holds the timestamp \<open>0\<close>.
\<close>

definition spec_replayLog :: "DayState \<Rightarrow> ClockLog \<Rightarrow> DayState" where
  "spec_replayLog st lg =
     (if type_log lg = ''clock-in'' then
        st\<lparr>clockInTime := Some (timestamp lg)\<rparr>
      else if type_log lg = ''lunch-out'' then
        (case clockInTime st of
           Some c \<Rightarrow>
             st\<lparr>workingTime_st := workingTime_st st + (timestamp lg - c),
                 lunchOutTime := Some (timestamp lg)\<rparr>
         | None \<Rightarrow> st)
      else if type_log lg = ''lunch-in'' then
        (case lunchOutTime st of
           Some c \<Rightarrow>
             st\<lparr>lunchTime_st := lunchTime_st st + (timestamp lg - c),
                 clockInTime := Some (timestamp lg)\<rparr>
         | None \<Rightarrow> st)
      else if type_log lg = ''clock-out'' then
        (case clockInTime st of
           Some c \<Rightarrow> st\<lparr>workingTime_st := workingTime_st st + (timestamp lg - c)\<rparr>
         | None \<Rightarrow> st)
      else st)"

definition spec_replayDay :: "ClockLog list \<Rightarrow> DayState" where
  "spec_replayDay dayLogs =
     foldl spec_replayLog
       \<lparr>workingTime_st = 0, lunchTime_st = 0, clockInTime = None, lunchOutTime = None\<rparr> dayLogs"

text \<open>
  The pay in the words of the specification: the worked duration in hours times the
  pay rate, as an exact number, and that number rounded to two decimal places, a half
  rounded up, as a string with two decimals.
\<close>

definition exactPay :: "int \<Rightarrow> int \<Rightarrow> rat" where
  "exactPay totalWorkingTime rate = of_int totalWorkingTime / 3600000 * (of_int rate / 100)"

definition spec_totalPay :: "int \<Rightarrow> int \<Rightarrow> string" where
  "spec_totalPay totalWorkingTime rate = toFixed (exactPay totalWorkingTime rate) 2"

text \<open>A string that ends in a point and two decimal digits, after at least one character.\<close>

definition twoDecimals :: "string \<Rightarrow> bool" where
  "twoDecimals str =
     (case rev str of
        d0 # d1 # point # whole \<Rightarrow>
          d0 \<in> set ''0123456789'' \<and> d1 \<in> set ''0123456789'' \<and> point = CHR ''.'' \<and> whole \<noteq> []
      | _ \<Rightarrow> False)"

text \<open>
  The daily report in closed form. \<open>dateOf\<close> is the key of a log, \<open>dayKeys\<close> the keys
  of a list of logs in the order of their first occurrence, \<open>logsOfDay\<close> the logs of
  one key in their order, \<open>replayed\<close> an entry after its replay and \<open>dayEntry\<close> the
  entry of a key with its replayed times.
\<close>

definition dateOf :: "ClockLog \<Rightarrow> string" where
  "dateOf l = toISODate (timestamp l)"

definition dayKeys :: "ClockLog list \<Rightarrow> string list" where
  "dayKeys ls = rev (remdups (rev (map dateOf ls)))"

definition logsOfDay :: "string \<Rightarrow> ClockLog list \<Rightarrow> ClockLog list" where
  "logsOfDay date ls = filter (\<lambda>l. dateOf l = date) ls"

definition replayed :: "DayReport \<Rightarrow> DayReport" where
  "replayed entry =
     entry\<lparr>workingTime := workingTime_st (replayDay (logs entry)),
           lunchTime := lunchTime_st (replayDay (logs entry))\<rparr>"

definition dayEntry :: "ClockLog list \<Rightarrow> string \<Rightarrow> string \<times> DayReport" where
  "dayEntry ls date =
     (date, \<lparr>logs = logsOfDay date ls,
             workingTime = workingTime_st (replayDay (logsOfDay date ls)),
             lunchTime = lunchTime_st (replayDay (logsOfDay date ls))\<rparr>)"

text \<open>The entry that the export holds for an employee: the fields of \<^verbatim>\<open>exportData.push\<close>.\<close>

definition exported :: "database \<Rightarrow> int \<Rightarrow> int \<Rightarrow> ClockEmployee \<Rightarrow> ExportEntry \<Rightarrow> bool" where
  "exported db s t employee entry =
     (case getEmployeeTimeCard db (id_emp employee) s t of
        Inl err \<Rightarrow> False
      | Inr timeCard \<Rightarrow>
          entry = \<lparr>employeeId_ex = id_emp employee,
                   employeeName = name employee,
                   payRate_ex = payRate employee,
                   totalHours = toFixed (hours (totalWorkingTime_tc timeCard)) 2,
                   totalPay_ex = totalPay_tc timeCard,
                   dailyBreakdown = dailyReport_tc timeCard\<rparr>)"

section \<open>Example data\<close>

text \<open>
  Monday 15 January 2024 in UTC runs from \<open>dayStart\<close> to \<open>dayEnd\<close>. \<open>fullDay\<close> is
  the day of the specification, with punches at 09:00, 12:00, 13:00 and 17:00;
  \<open>openDay\<close> has only the clock-in at 09:00; \<open>plainDay\<close> is 09:00 to 17:00 with no
  lunch, eight hours; \<open>shortDay\<close> is 09:00:00 to 10:00:54, which is 1.015 hours;
  \<open>epochDay\<close> starts at the timestamp \<open>0\<close>.
\<close>

definition dayStart :: int where
  "dayStart = 1705276800000"

definition dayEnd :: int where
  "dayEnd = 1705363199999"

definition fullDay :: "ClockLog list" where
  "fullDay =
     [punch ''p1'' ''e1'' ''clock-in'' 1705309200000,
      punch ''p2'' ''e1'' ''lunch-out'' 1705320000000,
      punch ''p3'' ''e1'' ''lunch-in'' 1705323600000,
      punch ''p4'' ''e1'' ''clock-out'' 1705338000000]"

definition openDay :: "ClockLog list" where
  "openDay = [punch ''p1'' ''e1'' ''clock-in'' 1705309200000]"

definition plainDay :: "ClockLog list" where
  "plainDay =
     [punch ''p1'' ''e1'' ''clock-in'' 1705309200000,
      punch ''p2'' ''e1'' ''clock-out'' 1705338000000]"

definition shortDay :: "ClockLog list" where
  "shortDay =
     [punch ''p1'' ''e1'' ''clock-in'' 1705309200000,
      punch ''p2'' ''e1'' ''clock-out'' 1705312854000]"

definition epochDay :: "ClockLog list" where
  "epochDay =
     [punch ''p1'' ''e1'' ''clock-in'' 0,
      punch ''p2'' ''e1'' ''clock-out'' 3600000]"

text \<open>Databases with one employee and one of these days, and the time cards they give.\<close>

definition fullDayDb :: database where
  "fullDayDb = \<lparr>clockEmployees = [emp ''e1'' 2500 ''inactive''], clockLogs = fullDay\<rparr>"

definition fullDayEntry :: DayReport where
  "fullDayEntry = \<lparr>logs = fullDay, workingTime = 25200000, lunchTime = 3600000\<rparr>"

definition fullDayCard :: TimeCard where
  "fullDayCard =
     \<lparr>employee_tc = emp ''e1'' 2500 ''inactive'',
      dailyReport_tc = [(''2024-01-15'', fullDayEntry)],
      totalWorkingTime_tc = 25200000,
      totalPay_tc = ''175.00'',
      startDate_tc = ''2024-01-15'',
      endDate_tc = ''2024-01-15''\<rparr>"

definition plainDayDb :: database where
  "plainDayDb = \<lparr>clockEmployees = [emp ''e1'' 2500 ''inactive''], clockLogs = plainDay\<rparr>"

definition plainDayCard :: TimeCard where
  "plainDayCard =
     \<lparr>employee_tc = emp ''e1'' 2500 ''inactive'',
      dailyReport_tc =
        [(''2024-01-15'', \<lparr>logs = plainDay, workingTime = 28800000, lunchTime = 0\<rparr>)],
      totalWorkingTime_tc = 28800000,
      totalPay_tc = ''200.00'',
      startDate_tc = ''2024-01-15'',
      endDate_tc = ''2024-01-15''\<rparr>"

definition shortDayDb :: database where
  "shortDayDb = \<lparr>clockEmployees = [emp ''e1'' 100 ''inactive''], clockLogs = shortDay\<rparr>"

definition shortDayCard :: TimeCard where
  "shortDayCard =
     \<lparr>employee_tc = emp ''e1'' 100 ''inactive'',
      dailyReport_tc =
        [(''2024-01-15'', \<lparr>logs = shortDay, workingTime = 3654000, lunchTime = 0\<rparr>)],
      totalWorkingTime_tc = 3654000,
      totalPay_tc = ''1.01'',
      startDate_tc = ''2024-01-15'',
      endDate_tc = ''2024-01-15''\<rparr>"

text \<open>
  A database with two employees. The logs are stored out of order: the second day of
  \<^verbatim>\<open>e1\<close> (16 January, 09:00 to 17:00) around the first, a log of 17 January and a
  log of \<^verbatim>\<open>e2\<close>.
\<close>

definition bob :: ClockEmployee where
  "bob = \<lparr>id_emp = ''e2'', name = ''Bob'', pin = Some ''1234'', payRate = 1850,
          status = Some ''working''\<rparr>"

definition secondDay :: "ClockLog list" where
  "secondDay =
     [punch ''q1'' ''e1'' ''clock-in'' 1705395600000,
      punch ''q2'' ''e1'' ''clock-out'' 1705424400000]"

definition weekDb :: database where
  "weekDb =
     \<lparr>clockEmployees = [emp ''e1'' 2500 ''inactive'', bob],
      clockLogs =
        [punch ''q2'' ''e1'' ''clock-out'' 1705424400000,
         punch ''r1'' ''e2'' ''clock-in'' 1705309200000] @ fullDay @
        [punch ''q1'' ''e1'' ''clock-in'' 1705395600000,
         punch ''q3'' ''e1'' ''clock-in'' 1705482000000]\<rparr>"

definition weekCard :: TimeCard where
  "weekCard =
     \<lparr>employee_tc = emp ''e1'' 2500 ''inactive'',
      dailyReport_tc =
        [(''2024-01-15'', fullDayEntry),
         (''2024-01-16'', \<lparr>logs = secondDay, workingTime = 28800000, lunchTime = 0\<rparr>)],
      totalWorkingTime_tc = 54000000,
      totalPay_tc = ''375.00'',
      startDate_tc = ''2024-01-15'',
      endDate_tc = ''2024-01-16''\<rparr>"

section \<open>Properties of the clock state machine\<close>

lemma emp_simps:
  "id_emp (emp i rate st) = i"
  "name (emp i rate st) = ''Alice''"
  "payRate (emp i rate st) = rate"
  "status (emp i rate st) = Some st"
  "(emp i rate st)\<lparr>status := Some st'\<rparr> = emp i rate st'"
  by (simp_all add: emp_def)

lemma punch_simps:
  "employeeId (punch newId i logType now) = i"
  "type_log (punch newId i logType now) = logType"
  "timestamp (punch newId i logType now) = now"
  by (simp_all add: punch_def)

lemma getClockEmployee_id:
  "getClockEmployee db i = Some e \<Longrightarrow> id_emp e = i"
  by (auto simp: getClockEmployee_def find_Some_iff)

lemma find_filter_head:
  "find P xs = Some e \<Longrightarrow> \<exists>ys. filter P xs = e # ys"
  by (induction xs) (auto split: if_splits)

lemma updateClockEmployee_found:
  assumes "getClockEmployee db i = Some e"
  shows "updateClockEmployee i u db =
           (Some (u e),
            db\<lparr>clockEmployees := map (\<lambda>x. if id_emp x = i then u x else x) (clockEmployees db)\<rparr>)"
proof -
  from assms obtain ys where "filter (\<lambda>x. id_emp x = i) (clockEmployees db) = e # ys"
    unfolding getClockEmployee_def by (blast dest: find_filter_head)
  then show ?thesis
    by (simp add: updateClockEmployee_def)
qed

lemma clockAction_found:
  assumes "getClockEmployee db i = Some e"
    and "stateMachine db i e = Some (nextStatus, punchType, label)"
  shows "clockAction now newId i db = transition db i e now newId nextStatus punchType label"
  using assms
  by (simp add: clockAction_def updateClockEmployee_found transition_def punch_def Let_def)

lemma sort_key_head:
  assumes "sort_key f xs = y # ys"
  shows "y \<in> set xs \<and> (\<forall>x\<in>set xs. f y \<le> f x)"
proof -
  have s: "set (sort_key f xs) = set xs" by simp
  have "sorted (map f (sort_key f xs))" by (rule sorted_sort_key)
  with assms have "\<forall>x\<in>set ys. f y \<le> f x" by simp
  moreover from s assms have "set xs = insert y (set ys)" by simp
  ultimately show ?thesis by auto
qed

lemma set_own_logs:
  "set (filter (\<lambda>l. employeeId l = i) (getClockLogs db (Some i))) =
     {l \<in> set (clockLogs db). employeeId l = i}"
  by (auto simp: getClockLogs_def orderByTimestampDesc_def)

lemma lastLog_None_iff:
  "lastLog db i = None \<longleftrightarrow> (\<forall>l\<in>set (clockLogs db). employeeId l \<noteq> i)"
proof -
  let ?own = "filter (\<lambda>l. employeeId l = i) (getClockLogs db (Some i))"
  have "lastLog db i = None \<longleftrightarrow> orderByTimestampDesc ?own = []"
    by (simp add: lastLog_def split: list.splits)
  also have "\<dots> \<longleftrightarrow> set ?own = {}"
    by (simp only: orderByTimestampDesc_def set_empty[symmetric] set_sort)
  also have "\<dots> \<longleftrightarrow> (\<forall>l\<in>set (clockLogs db). employeeId l \<noteq> i)"
    unfolding set_own_logs by auto
  finally show ?thesis .
qed

lemma lastLog_Some:
  assumes "lastLog db i = Some l"
  shows "l \<in> set (clockLogs db) \<and> employeeId l = i \<and>
         (\<forall>l'\<in>set (clockLogs db). employeeId l' = i \<longrightarrow> timestamp l' \<le> timestamp l)"
proof -
  let ?own = "filter (\<lambda>l. employeeId l = i) (getClockLogs db (Some i))"
  from assms obtain ls where "sort_key (\<lambda>l. - timestamp l) ?own = l # ls"
    by (auto simp: lastLog_def orderByTimestampDesc_def split: list.splits)
  from sort_key_head[OF this]
  have "l \<in> set ?own" and "\<forall>x\<in>set ?own. timestamp x \<le> timestamp l" by auto
  then show ?thesis unfolding set_own_logs by auto
qed

lemma stateMachine_inactive:
  "status e = Some ''inactive'' \<Longrightarrow>
     stateMachine db i e = Some (''working'', ''clock-in'', ''Clocked In'')"
  by (simp add: stateMachine_def)

lemma stateMachine_after_lunch:
  "status e = Some ''working'' \<Longrightarrow> map_option type_log (lastLog db i) = Some ''lunch-in'' \<Longrightarrow>
     stateMachine db i e = Some (''inactive'', ''clock-out'', ''Clocked Out'')"
  by (auto simp: stateMachine_def)

lemma stateMachine_before_lunch:
  "status e = Some ''working'' \<Longrightarrow> map_option type_log (lastLog db i) \<noteq> Some ''lunch-in'' \<Longrightarrow>
     stateMachine db i e = Some (''on-lunch'', ''lunch-out'', ''Started Lunch'')"
  by (auto simp: stateMachine_def split: option.splits)

lemma stateMachine_on_lunch:
  "status e = Some ''on-lunch'' \<Longrightarrow>
     stateMachine db i e = Some (''working'', ''lunch-in'', ''Ended Lunch'')"
  by (simp add: stateMachine_def)

text \<open>
  C2. For an employee that exists, \<^verbatim>\<open>clockAction\<close> follows the transition table:
  from \<^verbatim>\<open>inactive\<close> to \<^verbatim>\<open>working\<close> with a \<^verbatim>\<open>clock-in\<close> punch and the label
  "Clocked In"; from \<^verbatim>\<open>working\<close>, when the most recent punch of the employee is a
  \<^verbatim>\<open>lunch-in\<close>, to \<^verbatim>\<open>inactive\<close> with a \<^verbatim>\<open>clock-out\<close> punch and "Clocked Out";
  from \<^verbatim>\<open>working\<close> with any other most recent punch, or none, to \<^verbatim>\<open>on-lunch\<close>
  with a \<^verbatim>\<open>lunch-out\<close> punch and "Started Lunch"; from \<^verbatim>\<open>on-lunch\<close> to
  \<^verbatim>\<open>working\<close> with a \<^verbatim>\<open>lunch-in\<close> punch and "Ended Lunch". Each time the call
  returns the employee with the new status, the label and the new punch, the status
  register holds the new status, and the log has grown by exactly that punch
  (\<open>transition\<close>). The most recent punch \<open>lastLog\<close> is a punch of the employee whose
  timestamp no other punch of the employee exceeds; there is none exactly when the
  employee has no punch.
\<close>

theorem clockAction_transition_table:
  assumes "getClockEmployee db i = Some e"
  shows "(status e = Some ''inactive'' \<longrightarrow>
            clockAction now newId i db =
              transition db i e now newId ''working'' ''clock-in'' ''Clocked In'')
       \<and> (status e = Some ''working'' \<and> map_option type_log (lastLog db i) = Some ''lunch-in'' \<longrightarrow>
            clockAction now newId i db =
              transition db i e now newId ''inactive'' ''clock-out'' ''Clocked Out'')
       \<and> (status e = Some ''working'' \<and> map_option type_log (lastLog db i) \<noteq> Some ''lunch-in'' \<longrightarrow>
            clockAction now newId i db =
              transition db i e now newId ''on-lunch'' ''lunch-out'' ''Started Lunch'')
       \<and> (status e = Some ''on-lunch'' \<longrightarrow>
            clockAction now newId i db =
              transition db i e now newId ''working'' ''lunch-in'' ''Ended Lunch'')
       \<and> (\<forall>l. lastLog db i = Some l \<longrightarrow>
            l \<in> set (clockLogs db) \<and> employeeId l = i \<and>
            (\<forall>l'\<in>set (clockLogs db). employeeId l' = i \<longrightarrow> timestamp l' \<le> timestamp l))
       \<and> (lastLog db i = None \<longleftrightarrow> (\<forall>l\<in>set (clockLogs db). employeeId l \<noteq> i))"
proof (intro conjI impI allI)
  assume "status e = Some ''inactive''"
  then show "clockAction now newId i db =
      transition db i e now newId ''working'' ''clock-in'' ''Clocked In''"
    by (intro clockAction_found[OF assms] stateMachine_inactive)
next
  assume "status e = Some ''working'' \<and> map_option type_log (lastLog db i) = Some ''lunch-in''"
  then show "clockAction now newId i db =
      transition db i e now newId ''inactive'' ''clock-out'' ''Clocked Out''"
    by (intro clockAction_found[OF assms] stateMachine_after_lunch) simp_all
next
  assume "status e = Some ''working'' \<and> map_option type_log (lastLog db i) \<noteq> Some ''lunch-in''"
  then show "clockAction now newId i db =
      transition db i e now newId ''on-lunch'' ''lunch-out'' ''Started Lunch''"
    by (intro clockAction_found[OF assms] stateMachine_before_lunch) simp_all
next
  assume "status e = Some ''on-lunch''"
  then show "clockAction now newId i db =
      transition db i e now newId ''working'' ''lunch-in'' ''Ended Lunch''"
    by (intro clockAction_found[OF assms] stateMachine_on_lunch)
next
  fix l assume "lastLog db i = Some l"
  then show "l \<in> set (clockLogs db)" "employeeId l = i"
    "\<forall>l'\<in>set (clockLogs db). employeeId l' = i \<longrightarrow> timestamp l' \<le> timestamp l"
    using lastLog_Some by blast+
next
  show "lastLog db i = None \<longleftrightarrow> (\<forall>l\<in>set (clockLogs db). employeeId l \<noteq> i)"
    by (rule lastLog_None_iff)
qed

theorem clockAction_transition_table_witness:
  "clockAction 1000 ''p1'' ''e1'' \<lparr>clockEmployees = [emp ''e1'' 2500 ''inactive''], clockLogs = []\<rparr> =
     transition \<lparr>clockEmployees = [emp ''e1'' 2500 ''inactive''], clockLogs = []\<rparr> ''e1''
       (emp ''e1'' 2500 ''inactive'') 1000 ''p1'' ''working'' ''clock-in'' ''Clocked In''
   \<and> clockAction 1000 ''p1'' ''e1''
       \<lparr>clockEmployees = [emp ''e1'' 2500 ''working''],
        clockLogs = [punch ''p0'' ''e1'' ''lunch-in'' 900]\<rparr> =
     transition \<lparr>clockEmployees = [emp ''e1'' 2500 ''working''],
        clockLogs = [punch ''p0'' ''e1'' ''lunch-in'' 900]\<rparr> ''e1''
       (emp ''e1'' 2500 ''working'') 1000 ''p1'' ''inactive'' ''clock-out'' ''Clocked Out''
   \<and> clockAction 1000 ''p1'' ''e1''
       \<lparr>clockEmployees = [emp ''e1'' 2500 ''working''],
        clockLogs = [punch ''p0'' ''e1'' ''clock-in'' 900]\<rparr> =
     transition \<lparr>clockEmployees = [emp ''e1'' 2500 ''working''],
        clockLogs = [punch ''p0'' ''e1'' ''clock-in'' 900]\<rparr> ''e1''
       (emp ''e1'' 2500 ''working'') 1000 ''p1'' ''on-lunch'' ''lunch-out'' ''Started Lunch''
   \<and> clockAction 1000 ''p1'' ''e1''
       \<lparr>clockEmployees = [emp ''e1'' 2500 ''on-lunch''],
        clockLogs = [punch ''p0'' ''e1'' ''lunch-out'' 900]\<rparr> =
     transition \<lparr>clockEmployees = [emp ''e1'' 2500 ''on-lunch''],
        clockLogs = [punch ''p0'' ''e1'' ''lunch-out'' 900]\<rparr> ''e1''
       (emp ''e1'' 2500 ''on-lunch'') 1000 ''p1'' ''working'' ''lunch-in'' ''Ended Lunch''
   \<and> transition \<lparr>clockEmployees = [emp ''e1'' 2500 ''on-lunch''],
        clockLogs = [punch ''p0'' ''e1'' ''lunch-out'' 900]\<rparr> ''e1''
       (emp ''e1'' 2500 ''on-lunch'') 1000 ''p1'' ''working'' ''lunch-in'' ''Ended Lunch'' =
     (Inr \<lparr>employee_res = emp ''e1'' 2500 ''working'', status_res = ''Ended Lunch'',
           log_res = punch ''p1'' ''e1'' ''lunch-in'' 1000\<rparr>,
      \<lparr>clockEmployees = [emp ''e1'' 2500 ''working''],
       clockLogs = [punch ''p0'' ''e1'' ''lunch-out'' 900, punch ''p1'' ''e1'' ''lunch-in'' 1000]\<rparr>)"
proof -
  have l1: "lastLog \<lparr>clockEmployees = [emp ''e1'' 2500 ''working''],
        clockLogs = [punch ''p0'' ''e1'' ''lunch-in'' 900]\<rparr> ''e1'' =
      Some (punch ''p0'' ''e1'' ''lunch-in'' 900)"
    by code_simp
  have l2: "lastLog \<lparr>clockEmployees = [emp ''e1'' 2500 ''working''],
        clockLogs = [punch ''p0'' ''e1'' ''clock-in'' 900]\<rparr> ''e1'' =
      Some (punch ''p0'' ''e1'' ''clock-in'' 900)"
    by code_simp
  show ?thesis
    using
      clockAction_transition_table[of
        "\<lparr>clockEmployees = [emp ''e1'' 2500 ''inactive''], clockLogs = []\<rparr>" "''e1''"
        "emp ''e1'' 2500 ''inactive''" 1000 "''p1''"]
      clockAction_transition_table[of
        "\<lparr>clockEmployees = [emp ''e1'' 2500 ''working''],
          clockLogs = [punch ''p0'' ''e1'' ''lunch-in'' 900]\<rparr>" "''e1''"
        "emp ''e1'' 2500 ''working''" 1000 "''p1''"]
      clockAction_transition_table[of
        "\<lparr>clockEmployees = [emp ''e1'' 2500 ''working''],
          clockLogs = [punch ''p0'' ''e1'' ''clock-in'' 900]\<rparr>" "''e1''"
        "emp ''e1'' 2500 ''working''" 1000 "''p1''"]
      clockAction_transition_table[of
        "\<lparr>clockEmployees = [emp ''e1'' 2500 ''on-lunch''],
          clockLogs = [punch ''p0'' ''e1'' ''lunch-out'' 900]\<rparr>" "''e1''"
        "emp ''e1'' 2500 ''on-lunch''" 1000 "''p1''"]
    by (simp add: l1 l2 getClockEmployee_def emp_simps punch_simps transition_def)
qed

lemma lastLog_cong:
  "clockLogs db1 = clockLogs db2 \<Longrightarrow> lastLog db1 i = lastLog db2 i"
  by (simp add: lastLog_def getClockLogs_def)

lemma lastLog_append_newest:
  assumes older: "\<forall>l\<in>set (clockLogs db). employeeId l = i \<longrightarrow> timestamp l < timestamp p"
    and own: "employeeId p = i"
    and logs': "clockLogs db' = clockLogs db @ [p]"
  shows "lastLog db' i = Some p"
proof (cases "lastLog db' i")
  case None
  with own logs' show ?thesis by (simp add: lastLog_None_iff)
next
  case (Some l)
  from lastLog_Some[OF Some] logs' own
  have l: "l \<in> set (clockLogs db) \<or> l = p" "employeeId l = i" "timestamp p \<le> timestamp l"
    by auto
  with older have "l = p" by force
  with Some show ?thesis by simp
qed

lemma transition_register:
  assumes "getClockEmployee db i = Some e"
  shows "getClockEmployee (snd (transition db i e now newId nextStatus punchType label)) i =
           Some (e\<lparr>status := Some nextStatus\<rparr>)"
proof -
  have "find (\<lambda>x. id_emp x = i)
          (map (\<lambda>x. if id_emp x = i then x\<lparr>status := Some nextStatus\<rparr> else x) xs)
          = Some (e\<lparr>status := Some nextStatus\<rparr>)"
    if "find (\<lambda>x. id_emp x = i) xs = Some e" for xs
    using that by (induction xs) (auto split: if_splits)
  with assms show ?thesis
    by (simp add: transition_def getClockEmployee_def)
qed

lemma transition_logs:
  "clockLogs (snd (transition db i e now newId nextStatus punchType label)) =
     clockLogs db @ [punch newId i punchType now]"
  by (simp add: transition_def)

lemma phase_step:
  assumes ph: "phase db i k" and k: "k < 4"
    and older: "\<forall>l\<in>set (clockLogs db). employeeId l = i \<longrightarrow> timestamp l < now"
  shows "phase (snd (clockAction now newId i db)) i ((k + 1) mod 4) \<and>
         (\<forall>l\<in>set (clockLogs (snd (clockAction now newId i db))). employeeId l = i \<longrightarrow> timestamp l \<le> now)"
proof -
  from ph obtain e where e: "getClockEmployee db i = Some e"
    by (auto simp: phase_def split: option.splits)
  note found = clockAction_found[OF e, of _ _ _ now newId]
  have new: "lastLog (snd (transition db i e now newId ns pt lb)) i = Some (punch newId i pt now)"
    for ns pt lb
    by (rule lastLog_append_newest[where db = db]) (use older in \<open>simp_all add: transition_logs punch_def\<close>)
  have bound: "\<forall>l\<in>set (clockLogs (snd (transition db i e now newId ns pt lb))). employeeId l = i \<longrightarrow> timestamp l \<le> now"
    for ns pt lb
    using older by (auto simp: transition_logs punch_def)
  from k consider "k = 0" | "k = 1" | "k = 2" | "k = 3" by linarith
  then show ?thesis
  proof cases
    case 1
    with ph e have "status e = Some ''inactive''" by (simp add: phase_def)
    then have "clockAction now newId i db =
        transition db i e now newId ''working'' ''clock-in'' ''Clocked In''"
      by (intro found stateMachine_inactive)
    with 1 show ?thesis
      using bound by (simp add: phase_def transition_register[OF e] new punch_def)
  next
    case 2
    with ph e have "status e = Some ''working''"
      "map_option type_log (lastLog db i) = Some ''clock-in''" by (simp_all add: phase_def)
    then have "clockAction now newId i db =
        transition db i e now newId ''on-lunch'' ''lunch-out'' ''Started Lunch''"
      by (intro found stateMachine_before_lunch) auto
    with 2 show ?thesis
      using bound by (simp add: phase_def transition_register[OF e])
  next
    case 3
    with ph e have "status e = Some ''on-lunch''" by (simp add: phase_def)
    then have "clockAction now newId i db =
        transition db i e now newId ''working'' ''lunch-in'' ''Ended Lunch''"
      by (intro found stateMachine_on_lunch)
    with 3 show ?thesis
      using bound by (simp add: phase_def transition_register[OF e] new punch_def)
  next
    case 4
    with ph e have "status e = Some ''working''"
      "map_option type_log (lastLog db i) = Some ''lunch-in''" by (simp_all add: phase_def)
    then have "clockAction now newId i db =
        transition db i e now newId ''inactive'' ''clock-out'' ''Clocked Out''"
      by (intro found stateMachine_after_lunch) simp_all
    with 4 show ?thesis
      using bound by (simp add: phase_def transition_register[OF e])
  qed
qed

lemma phase_repeat:
  assumes "phase db i k" and "k < 4"
    and "sorted_wrt (<) (map fst calls)"
    and "\<forall>l\<in>set (clockLogs db). employeeId l = i \<longrightarrow> (\<forall>c\<in>set calls. timestamp l < fst c)"
  shows "phase (repeatClockAction calls i db) i ((k + length calls) mod 4)"
  using assms
proof (induction calls arbitrary: db k)
  case Nil
  then show ?case by simp
next
  case (Cons c calls)
  obtain now newId where c: "c = (now, newId)" by (cases c)
  let ?db = "snd (clockAction now newId i db)"
  from Cons.prems c have older: "\<forall>l\<in>set (clockLogs db). employeeId l = i \<longrightarrow> timestamp l < now"
    by simp
  from phase_step[OF Cons.prems(1,2) older, of newId]
  have ph: "phase ?db i ((k + 1) mod 4)"
    and le: "\<forall>l\<in>set (clockLogs ?db). employeeId l = i \<longrightarrow> timestamp l \<le> now" by simp_all
  from Cons.prems(3) c have later: "\<forall>c'\<in>set calls. now < fst c'" and sorted: "sorted_wrt (<) (map fst calls)"
    by auto
  from le later have "\<forall>l\<in>set (clockLogs ?db). employeeId l = i \<longrightarrow> (\<forall>c\<in>set calls. timestamp l < fst c)"
    by fastforce
  from Cons.IH[OF ph _ sorted this]
  have "phase (repeatClockAction calls i ?db) i (((k + 1) mod 4 + length calls) mod 4)" by simp
  moreover have "((k + 1) mod 4 + length calls) mod 4 = (k + length (c # calls)) mod 4"
    by (simp add: mod_add_left_eq)
  ultimately show ?case using c by simp
qed

lemma phase_status:
  "phase db i k \<Longrightarrow> k < 4 \<Longrightarrow> statusOf db i = Some (cycle ! k)"
  by (auto simp: phase_def statusOf_def cycle_def nth_Cons' split: option.splits if_splits)

text \<open>
  C6, amended. An employee at status \<^verbatim>\<open>inactive\<close> whose clock actions carry strictly
  increasing timestamps, each later than every earlier punch of the employee, moves
  through the cycle \<^verbatim>\<open>inactive\<close>, \<^verbatim>\<open>working\<close>, \<^verbatim>\<open>on-lunch\<close>, \<^verbatim>\<open>working\<close>: after
  \<open>n\<close> calls the status is the entry \<open>n mod 4\<close> of the cycle, so it is \<^verbatim>\<open>inactive\<close>
  again after every fourth call.
\<close>

theorem clockAction_cycle:
  assumes "statusOf db i = Some ''inactive''"
    and "sorted_wrt (<) (map fst calls)"
    and "\<forall>l\<in>set (clockLogs db). employeeId l = i \<longrightarrow> (\<forall>c\<in>set calls. timestamp l < fst c)"
  shows "statusOf (repeatClockAction calls i db) i = Some (cycle ! (length calls mod 4))"
proof -
  from assms(1) have "phase db i 0"
    by (auto simp: phase_def statusOf_def split: option.splits)
  from phase_repeat[OF this _ assms(2,3)] phase_status
  show ?thesis by fastforce
qed

text \<open>
  C6 as stated, for every employee at status \<^verbatim>\<open>inactive\<close>, fails when the clock
  has stepped back: with a \<^verbatim>\<open>lunch-in\<close> punch at time 100 in the log and clock
  actions at times 50 and 60, the second action looks back at the punch of time 100
  and clocks out, so the status after two calls is \<^verbatim>\<open>inactive\<close>, not
  \<^verbatim>\<open>on-lunch\<close>.
\<close>

theorem clockAction_cycle_counterexample:
  "statusOf \<lparr>clockEmployees = [emp ''e1'' 2500 ''inactive''],
             clockLogs = [punch ''p0'' ''e1'' ''lunch-in'' 100]\<rparr> ''e1'' = Some ''inactive'' \<and>
   statusOf (repeatClockAction [(50, ''p1''), (60, ''p2'')] ''e1''
              \<lparr>clockEmployees = [emp ''e1'' 2500 ''inactive''],
               clockLogs = [punch ''p0'' ''e1'' ''lunch-in'' 100]\<rparr>) ''e1'' = Some ''inactive''"
  by code_simp

theorem clockAction_cycle_witness:
  "statusOf \<lparr>clockEmployees = [emp ''e1'' 2500 ''inactive''], clockLogs = []\<rparr> ''e1'' = Some ''inactive'' \<and>
   statusOf (repeatClockAction [(10, ''p1''), (20, ''p2''), (30, ''p3''), (40, ''p4''), (50, ''p5'')] ''e1''
              \<lparr>clockEmployees = [emp ''e1'' 2500 ''inactive''], clockLogs = []\<rparr>) ''e1'' = Some ''working''"
  using clockAction_cycle[of "\<lparr>clockEmployees = [emp ''e1'' 2500 ''inactive''], clockLogs = []\<rparr>" "''e1''"
      "[(10, ''p1''), (20, ''p2''), (30, ''p3''), (40, ''p4''), (50, ''p5'')]"]
  by (simp add: statusOf_def getClockEmployee_def emp_def cycle_def)

text \<open>
  C7. A clock action for an identifier that no employee row carries fails with
  "Employee not found", and the database it leaves is the one it found: no punch is
  created and no status is changed.
\<close>

theorem clockAction_unknown_employee:
  "getClockEmployee db i = None \<Longrightarrow> clockAction now newId i db = (Inl EmployeeNotFound, db)"
  by (simp add: clockAction_def)

theorem clockAction_unknown_employee_witness:
  "getClockEmployee \<lparr>clockEmployees = [emp ''e1'' 2500 ''working''],
                     clockLogs = [punch ''p0'' ''e1'' ''clock-in'' 100]\<rparr> ''e2'' = None \<and>
   clockAction 200 ''p1'' ''e2'' \<lparr>clockEmployees = [emp ''e1'' 2500 ''working''],
                     clockLogs = [punch ''p0'' ''e1'' ''clock-in'' 100]\<rparr> =
     (Inl EmployeeNotFound, \<lparr>clockEmployees = [emp ''e1'' 2500 ''working''],
                     clockLogs = [punch ''p0'' ''e1'' ''clock-in'' 100]\<rparr>)"
  using clockAction_unknown_employee[of "\<lparr>clockEmployees = [emp ''e1'' 2500 ''working''],
                     clockLogs = [punch ''p0'' ''e1'' ''clock-in'' 100]\<rparr>" "''e2''" 200 "''p1''"]
  by (simp add: getClockEmployee_def emp_def)

section \<open>Properties of number rounding and formatting\<close>

text \<open>
  Rounding to the nearest double: the result differs from the exact value by at most
  half the spacing of the doubles there, which for a number in the normal range is a
  relative error of at most \<open>1 / 2 ^ 53\<close>; a non-negative number stays non-negative.
\<close>

lemma roundTiesToEven_error: "\<bar>of_int (roundTiesToEven m) - m\<bar> \<le> 1 / 2"
proof -
  define r where "r = m - of_int \<lfloor>m\<rfloor>"
  have r: "0 \<le> r" "r < 1" unfolding r_def by linarith+
  have "roundTiesToEven m = \<lfloor>m\<rfloor> \<and> r \<le> 1 / 2 \<or> roundTiesToEven m = \<lfloor>m\<rfloor> + 1 \<and> 1 / 2 \<le> r"
    unfolding roundTiesToEven_def Let_def r_def[symmetric] by (simp add: not_less)
  then show ?thesis
  proof
    assume a: "roundTiesToEven m = \<lfloor>m\<rfloor> \<and> r \<le> 1 / 2"
    then have "of_int (roundTiesToEven m) - m = - r" by (simp add: r_def)
    with a r show ?thesis by simp
  next
    assume a: "roundTiesToEven m = \<lfloor>m\<rfloor> + 1 \<and> 1 / 2 \<le> r"
    then have "of_int (roundTiesToEven m) - m = 1 - r" by (simp add: r_def)
    with a r show ?thesis by simp
  qed
qed

lemma roundTiesToEven_nonneg: "0 \<le> m \<Longrightarrow> 0 \<le> roundTiesToEven m"
  by (auto simp: roundTiesToEven_def Let_def)

lemma roundTiesToEven_int: "roundTiesToEven (of_int n) = n"
  by (simp add: roundTiesToEven_def)

lemma two_powi_pos: "0 < (2::rat) powi k"
  by (simp add: zero_less_power_int)

lemma fl_nonneg:
  assumes "0 \<le> x"
  shows "0 \<le> fl x"
proof (cases "x = 0")
  case True
  then show ?thesis by (simp add: fl_def)
next
  case False
  let ?q = "(2::rat) powi (max (ilog2 x) (- 1022) - 52)"
  have "0 \<le> x / ?q" using assms two_powi_pos[of "max (ilog2 x) (- 1022) - 52"] by simp
  then have "0 \<le> roundTiesToEven (x / ?q)" by (rule roundTiesToEven_nonneg)
  then have "(0::rat) \<le> of_int (roundTiesToEven (x / ?q)) * ?q"
    using two_powi_pos[of "max (ilog2 x) (- 1022) - 52"] by (intro mult_nonneg_nonneg) simp_all
  with False show ?thesis by (simp add: fl_def Let_def)
qed

lemma fl_zero: "fl 0 = 0"
  by (simp add: fl_def)

lemma bitlen_pow:
  assumes "0 < n"
  shows "(2::rat) powi (bitlen n - 1) \<le> of_int n \<and> of_int n < (2::rat) powi (bitlen n)"
proof -
  from bitlen_bounds[OF assms]
  have b: "2 ^ nat (bitlen n - 1) \<le> n" "n < 2 ^ nat (bitlen n)" by auto
  have ge: "1 \<le> bitlen n" using assms by (auto simp: bitlen_alt_def)
  have "(of_int (2 ^ nat (bitlen n - 1)) :: rat) \<le> of_int n"
    using b(1) by (simp only: of_int_le_iff)
  moreover have "(of_int n :: rat) < of_int (2 ^ nat (bitlen n))"
    using b(2) by (simp only: of_int_less_iff)
  ultimately show ?thesis
    using ge by (simp add: power_int_def)
qed

lemma ilog2_bounds:
  assumes "x \<noteq> 0"
  shows "2 powi (ilog2 x) \<le> \<bar>x\<bar> \<and> \<bar>x\<bar> < 2 powi (ilog2 x + 1)"
proof -
  obtain p q where pq: "quotient_of \<bar>x\<bar> = (p, q)" by (cases "quotient_of \<bar>x\<bar>")
  then have q: "0 < q" and x: "\<bar>x\<bar> = of_int p / of_int q"
    by (simp_all add: quotient_of_denom_pos quotient_of_div)
  from assms have "0 < \<bar>x\<bar>" by simp
  with x q have p: "0 < p" by (simp add: zero_less_divide_iff)
  let ?d = "bitlen p - bitlen q"
  note bp = bitlen_pow[OF p] and bq = bitlen_pow[OF q]
  have qpos: "(0::rat) < of_int q" using q by simp
  have "\<bar>x\<bar> < 2 powi (bitlen p) / 2 powi (bitlen q - 1)"
    unfolding x using bp bq p two_powi_pos[of "bitlen q - 1"]
    by (intro frac_less) auto
  then have upper: "\<bar>x\<bar> < 2 powi (?d + 1)"
    by (simp add: power_int_diff power_int_add)
  have "2 powi (bitlen p - 1) / 2 powi (bitlen q) < \<bar>x\<bar>"
    unfolding x using bp bq qpos two_powi_pos[of "bitlen p - 1"]
    by (intro frac_less2) auto
  then have lower: "2 powi (?d - 1) < \<bar>x\<bar>"
    by (simp add: power_int_diff)
  show ?thesis
  proof (cases "2 powi ?d \<le> \<bar>x\<bar>")
    case True
    with upper pq show ?thesis by (simp add: ilog2_def)
  next
    case False
    with lower pq show ?thesis by (simp add: ilog2_def)
  qed
qed

lemma fl_abs_error:
  "\<bar>fl x - x\<bar> \<le> 2 powi (max (ilog2 x) (- 1022) - 52) / 2"
proof (cases "x = 0")
  case True
  then show ?thesis using two_powi_pos[of "max (ilog2 x) (- 1022) - 52"] by (simp add: fl_def)
next
  case False
  let ?q = "(2::rat) powi (max (ilog2 x) (- 1022) - 52)"
  have q: "0 < ?q" by (rule two_powi_pos)
  have "fl x - x = (of_int (roundTiesToEven (x / ?q)) - x / ?q) * ?q"
    using False q by (simp add: fl_def Let_def field_simps)
  then have "\<bar>fl x - x\<bar> = \<bar>of_int (roundTiesToEven (x / ?q)) - x / ?q\<bar> * ?q"
    using q by (simp add: abs_mult)
  also have "\<dots> \<le> 1 / 2 * ?q"
    using q roundTiesToEven_error[of "x / ?q"] by (intro mult_right_mono) auto
  finally show ?thesis by simp
qed

lemma fl_rel_error:
  assumes "2 powi (- 1022) \<le> \<bar>x\<bar>"
  shows "\<bar>fl x - x\<bar> \<le> \<bar>x\<bar> / 2 ^ 53"
proof -
  from assms two_powi_pos[of "- 1022"] have nz: "x \<noteq> 0" by auto
  note b = ilog2_bounds[OF nz]
  from assms b have "(2::rat) powi (- 1022) < 2 powi (ilog2 x + 1)" by linarith
  then have "- 1022 < ilog2 x + 1"
    using power_int_increasing[of "ilog2 x + 1" "- 1022" "2::rat"] by (cases "- 1022 < ilog2 x + 1") auto
  then have m: "max (ilog2 x) (- 1022) = ilog2 x" by simp
  have "\<bar>fl x - x\<bar> \<le> 2 powi (ilog2 x - 52) / 2"
    using fl_abs_error[of x] by (simp only: m)
  also have "\<dots> = 2 powi (ilog2 x) / 2 ^ 53"
    by (simp add: power_int_diff)
  also have "\<dots> \<le> \<bar>x\<bar> / 2 ^ 53"
    using b by (intro divide_right_mono) auto
  finally show ?thesis .
qed


lemma fl_mul_error:
  fixes a b A B P u :: rat
  assumes A: "\<bar>A - a\<bar> \<le> u * \<bar>a\<bar>" and B: "\<bar>B - b\<bar> \<le> u * \<bar>b\<bar>"
    and P: "\<bar>P - A * B\<bar> \<le> u * \<bar>A * B\<bar>"
    and u: "0 \<le> u" "u \<le> 1 / 4"
  shows "\<bar>P - a * b\<bar> \<le> 4 * u * \<bar>a * b\<bar>"
proof -
  define x where "x = \<bar>a\<bar>"
  define y where "y = \<bar>b\<bar>"
  have xy: "0 \<le> x" "0 \<le> y" by (simp_all add: x_def y_def)
  have A': "\<bar>A\<bar> \<le> (1 + u) * x"
    using A by (simp add: x_def algebra_simps)
  have "A * B - a * b = A * (B - b) + (A - a) * b" by (simp add: algebra_simps)
  then have "\<bar>A * B - a * b\<bar> \<le> \<bar>A\<bar> * \<bar>B - b\<bar> + \<bar>A - a\<bar> * \<bar>b\<bar>"
    by (metis abs_mult abs_triangle_ineq)
  also have "\<bar>A\<bar> * \<bar>B - b\<bar> \<le> ((1 + u) * x) * (u * y)"
    using A' B u xy by (intro mult_mono) (simp_all add: y_def)
  also have "\<bar>A - a\<bar> * \<bar>b\<bar> \<le> (u * x) * y"
    using A by (simp add: x_def y_def mult_right_mono)
  finally have d: "\<bar>A * B - a * b\<bar> \<le> u * (2 + u) * (x * y)"
    by (simp add: algebra_simps)
  have "\<bar>A * B\<bar> \<le> \<bar>a * b\<bar> + \<bar>A * B - a * b\<bar>" by simp
  with d have AB: "\<bar>A * B\<bar> \<le> (1 + u * (2 + u)) * (x * y)"
    by (simp add: x_def y_def abs_mult algebra_simps)
  have "\<bar>P - a * b\<bar> \<le> \<bar>P - A * B\<bar> + \<bar>A * B - a * b\<bar>" by simp
  also have "\<bar>P - A * B\<bar> \<le> u * ((1 + u * (2 + u)) * (x * y))"
    using P AB u by (meson mult_left_mono order_trans)
  also note d
  finally have "\<bar>P - a * b\<bar> \<le> (u * (1 + u * (2 + u)) + u * (2 + u)) * (x * y)"
    by (simp add: algebra_simps)
  also have "\<dots> \<le> (4 * u) * (x * y)"
  proof (rule mult_right_mono)
    have uu: "u * u \<le> 1 / 4 * u"
      using u by (intro mult_right_mono) simp_all
    have "u * (u * u) \<le> 1 / 4 * (1 / 4 * u)"
      using u uu by (intro mult_mono) simp_all
    then have "u * u * u \<le> 1 / 16 * u" by (simp add: mult.assoc)
    with uu show "u * (1 + u * (2 + u)) + u * (2 + u) \<le> 4 * u"
      using u by (simp add: algebra_simps)
    show "0 \<le> x * y" using xy by simp
  qed
  finally show ?thesis by (simp add: x_def y_def abs_mult)
qed

lemma min_normal_small: "(2::rat) powi (- 1022) \<le> 1 / 1440000000"
  by simp

lemma fl_half:
  assumes "2 powi (- 1022) \<le> \<bar>x\<bar>"
  shows "\<bar>x\<bar> / 2 \<le> \<bar>fl x\<bar>"
proof -
  have "\<bar>x\<bar> / 2 ^ 53 \<le> \<bar>x\<bar> / 2"
    by (intro divide_left_mono) simp_all
  with fl_rel_error[OF assms] show ?thesis by linarith
qed

text \<open>
  Decimal digits, and the shape of \<^verbatim>\<open>toFixed(2)\<close>: the sign, the digits of the
  hundreds of \<open>toFixedInteger\<close>, a point and its last two digits. The number written
  differs from the magnitude of the argument by at most half a hundredth.
\<close>

lemma toFixedInteger_nonneg: "0 \<le> toFixedInteger x f"
  by (simp add: toFixedInteger_def)

lemma digits_small: "n < 10 \<Longrightarrow> digits n = [digitChar n]"
  by (subst digits.simps) simp

lemma digits_big: "10 \<le> n \<Longrightarrow> digits n = digits (n div 10) @ [digitChar (n mod 10)]"
  by (subst digits.simps) simp

lemma digits_nonempty: "digits n \<noteq> []"
  by (subst digits.simps) simp

lemma digits_hundred:
  assumes "100 \<le> n"
  shows "digits n = digits (n div 100) @ [digitChar (n div 10 mod 10), digitChar (n mod 10)]"
proof -
  from assms have "10 \<le> n" "10 \<le> n div 10" by simp_all
  from digits_big[OF this(1)] digits_big[OF this(2)]
  have "digits n = (digits (n div 10 div 10) @ [digitChar (n div 10 mod 10)]) @ [digitChar (n mod 10)]"
    by (rule trans[OF _ arg_cong[where f = "\<lambda>xs. xs @ [digitChar (n mod 10)]"]])
  moreover have "n div 10 div 10 = n div 100"
    using zdiv_zmult2_eq[of 10 n 10] by simp
  ultimately show ?thesis by simp
qed

lemma digitChar_0: "digitChar 0 = CHR ''0''"
  by (simp add: digitChar_def)

lemma digitChar_digit:
  assumes "0 \<le> d" "d < 10"
  shows "digitChar d \<in> set ''0123456789''"
  unfolding digitChar_def using assms by (intro nth_mem) simp

lemma digits_set: "0 \<le> n \<Longrightarrow> set (digits n) \<subseteq> set ''0123456789''"
proof (induction n rule: digits.induct)
  case (1 n)
  show ?case
  proof (cases "n < 10")
    case True
    with "1.prems" digitChar_digit[of n] show ?thesis by (simp only: digits_small) simp
  next
    case False
    then have big: "10 \<le> n" by simp
    have "0 \<le> n mod 10" "n mod 10 < 10" "0 \<le> n div 10" using "1.prems" by simp_all
    with "1.IH"[OF False] digitChar_digit[of "n mod 10"] show ?thesis
      by (simp only: digits_big[OF big]) simp
  qed
qed



lemma toFixedInteger_error:
  "\<bar>of_int (toFixedInteger x 2) / 100 - \<bar>x\<bar>\<bar> \<le> 1 / 200"
proof -
  define y where "y = \<bar>x\<bar> * 100 + 1 / 2"
  have "of_int \<lfloor>y\<rfloor> \<le> y" "y < of_int \<lfloor>y\<rfloor> + 1" by linarith+
  then have "\<bar>of_int \<lfloor>y\<rfloor> / 100 - \<bar>x\<bar>\<bar> \<le> 1 / 200"
    unfolding y_def by linarith
  then show ?thesis
    by (simp add: toFixedInteger_def y_def)
qed


lemma totalPay_error:
  "\<bar>totalPay W c - exactPay W c\<bar> \<le> \<bar>exactPay W c\<bar> / 2 ^ 51"
proof (cases "W = 0 \<or> c = 0")
  case True
  then show ?thesis
    by (auto simp: totalPay_def hours_def parseFloat_def num_mul_def num_div_def exactPay_def fl_zero)
next
  case False
  define a :: rat where "a = of_int W / 3600000"
  define b :: rat where "b = of_int c / 100"
  from False have "1 \<le> \<bar>W\<bar>" "1 \<le> \<bar>c\<bar>" by auto
  then have "(1::rat) \<le> \<bar>of_int W\<bar>" "(1::rat) \<le> \<bar>of_int c\<bar>"
    by (simp_all flip: of_int_abs)
  then have a: "1 / 3600000 \<le> \<bar>a\<bar>" and b: "1 / 100 \<le> \<bar>b\<bar>"
    by (simp_all add: a_def b_def)
  have small: "(2::rat) powi (- 1022) \<le> 1 / 3600000" "(2::rat) powi (- 1022) \<le> 1 / 100"
    using min_normal_small by simp_all
  from a b small have na: "2 powi (- 1022) \<le> \<bar>a\<bar>" and nb: "2 powi (- 1022) \<le> \<bar>b\<bar>"
    by linarith+
  have A: "\<bar>fl a - a\<bar> \<le> 1 / 2 ^ 53 * \<bar>a\<bar>" and B: "\<bar>fl b - b\<bar> \<le> 1 / 2 ^ 53 * \<bar>b\<bar>"
    using fl_rel_error[OF na] fl_rel_error[OF nb] by simp_all
  have "1 / 7200000 \<le> \<bar>fl a\<bar>" "1 / 200 \<le> \<bar>fl b\<bar>"
    using fl_half[OF na] fl_half[OF nb] a b by linarith+
  then have "1 / 7200000 * (1 / 200) \<le> \<bar>fl a\<bar> * \<bar>fl b\<bar>"
    by (intro mult_mono) simp_all
  then have "2 powi (- 1022) \<le> \<bar>fl a * fl b\<bar>"
    using min_normal_small by (simp add: abs_mult)
  from fl_rel_error[OF this]
  have P: "\<bar>fl (fl a * fl b) - fl a * fl b\<bar> \<le> 1 / 2 ^ 53 * \<bar>fl a * fl b\<bar>" by simp
  have "\<bar>fl (fl a * fl b) - a * b\<bar> \<le> 4 * (1 / 2 ^ 53) * \<bar>a * b\<bar>"
    by (rule fl_mul_error[OF A B P]) simp_all
  moreover have "totalPay W c = fl (fl a * fl b)"
    by (simp add: totalPay_def hours_def parseFloat_def num_mul_def num_div_def a_def b_def)
  moreover have "exactPay W c = a * b"
    by (simp add: exactPay_def a_def b_def)
  ultimately show ?thesis by simp
qed



lemma toFixed_two:
  "toFixed x 2 =
     (if x < 0 then ''-'' else []) @ digits (toFixedInteger x 2 div 100) @ ''.'' @
       [digitChar (toFixedInteger x 2 div 10 mod 10), digitChar (toFixedInteger x 2 mod 10)]"
proof -
  define n where "n = toFixedInteger x 2"
  have n0: "0 \<le> n" unfolding n_def by (rule toFixedInteger_nonneg)
  consider "n = 0" | "0 < n" "n < 10" | "10 \<le> n" "n < 100" | "100 \<le> n" using n0 by linarith
  then have "(let m = (if n = 0 then ''0'' else digits n);
                  mz = (if length m \<le> 2 then replicate (2 + 1 - length m) CHR ''0'' @ m else m);
                  k = length mz
              in take (k - 2) mz @ ''.'' @ drop (k - 2) mz) =
      digits (n div 100) @ ''.'' @ [digitChar (n div 10 mod 10), digitChar (n mod 10)]"
  proof cases
    case 1
    then show ?thesis by (simp add: digits_small digitChar_0)
  next
    case 2
    then show ?thesis by (simp add: digits_small digitChar_0 numeral_3_eq_3)
  next
    case 3
    then have "n div 10 < 10" "n div 100 = 0" by simp_all
    with 3 show ?thesis by (simp add: digits_big digits_small digitChar_0)
  next
    case 4
    then have "n \<noteq> 0" by simp
    with 4 show ?thesis by (simp add: digits_hundred digits_nonempty Let_def)
  qed
  then show ?thesis
    unfolding toFixed_def n_def[symmetric] by (simp add: Let_def)
qed

section \<open>Properties of the replay and of the daily report\<close>

text \<open>
  While no timestamp is \<open>0\<close> the replay of the code is the replay of the
  specification. On timestamps in ascending order both durations stay non-negative:
  a cursor never holds a timestamp later than a punch still to come.
\<close>

lemma replay_refines_fold:
  assumes "\<forall>l\<in>set ls. timestamp l \<noteq> 0"
    and "clockInTime st \<noteq> Some 0" and "lunchOutTime st \<noteq> Some 0"
  shows "foldl replayLog st ls = foldl spec_replayLog st ls"
  using assms
proof (induction ls arbitrary: st)
  case Nil
  then show ?case by simp
next
  case (Cons l ls)
  have same: "replayLog st l = spec_replayLog st l"
    using Cons.prems(2,3)
    by (auto simp: replayLog_def spec_replayLog_def split: option.splits)
  have "clockInTime (spec_replayLog st l) \<noteq> Some 0" "lunchOutTime (spec_replayLog st l) \<noteq> Some 0"
    using Cons.prems by (auto simp: spec_replayLog_def split: option.splits)
  with Cons.IH[of "spec_replayLog st l"] Cons.prems(1) same show ?case by simp
qed

lemma replayDay_refines_spec:
  "\<forall>l\<in>set ls. timestamp l \<noteq> 0 \<Longrightarrow> replayDay ls = spec_replayDay ls"
  by (simp add: replayDay_def spec_replayDay_def replay_refines_fold)

lemma replay_nonneg_fold:
  assumes "sorted (map timestamp ls)"
    and "\<forall>c. clockInTime st = Some c \<longrightarrow> (\<forall>l\<in>set ls. c \<le> timestamp l)"
    and "\<forall>c. lunchOutTime st = Some c \<longrightarrow> (\<forall>l\<in>set ls. c \<le> timestamp l)"
    and "0 \<le> workingTime_st st" and "0 \<le> lunchTime_st st"
  shows "0 \<le> workingTime_st (foldl replayLog st ls) \<and> 0 \<le> lunchTime_st (foldl replayLog st ls)"
  using assms
proof (induction ls arbitrary: st)
  case Nil
  then show ?case by simp
next
  case (Cons l ls)
  let ?st = "replayLog st l"
  from Cons.prems(1) have later: "\<forall>l'\<in>set ls. timestamp l \<le> timestamp l'" and sorted: "sorted (map timestamp ls)"
    by auto
  have c1: "\<forall>c. clockInTime ?st = Some c \<longrightarrow> (\<forall>l\<in>set ls. c \<le> timestamp l)"
    using Cons.prems(2) later by (auto simp: replayLog_def split: option.splits)
  have c2: "\<forall>c. lunchOutTime ?st = Some c \<longrightarrow> (\<forall>l\<in>set ls. c \<le> timestamp l)"
    using Cons.prems(3) later by (auto simp: replayLog_def split: option.splits)
  have w: "0 \<le> workingTime_st ?st"
    using Cons.prems(2,4) by (auto simp: replayLog_def split: option.splits)
  have lu: "0 \<le> lunchTime_st ?st"
    using Cons.prems(3,5) by (auto simp: replayLog_def split: option.splits)
  from Cons.IH[OF sorted c1 c2 w lu] show ?case by simp
qed

lemma replayDay_nonneg:
  "sorted (map timestamp ls) \<Longrightarrow>
     0 \<le> workingTime_st (replayDay ls) \<and> 0 \<le> lunchTime_st (replayDay ls)"
  unfolding replayDay_def by (rule replay_nonneg_fold) simp_all

text \<open>
  The two loops of \<^verbatim>\<open>getEmployeeTimeCard\<close> in closed form: the first leaves one entry
  for each date, in the order of first occurrence, with the logs of that date in their
  order; the second replays every entry once and adds up the working times.
\<close>

lemma set_dayKeys: "set (dayKeys ls) = dateOf ` set ls"
  by (simp add: dayKeys_def)

lemma distinct_dayKeys: "distinct (dayKeys ls)"
  by (simp add: dayKeys_def)

lemma dayKeys_snoc:
  "dayKeys (ls @ [l]) = (if dateOf l \<in> dateOf ` set ls then dayKeys ls else dayKeys ls @ [dateOf l])"
  by (simp add: dayKeys_def)

lemma logsOfDay_snoc:
  "logsOfDay k (ls @ [l]) = logsOfDay k ls @ (if dateOf l = k then [l] else [])"
  by (simp add: logsOfDay_def)

lemma logsOfDay_absent: "k \<notin> dateOf ` set ls \<Longrightarrow> logsOfDay k ls = []"
  by (auto simp: logsOfDay_def filter_empty_conv)

lemma groupLogs_snoc: "groupLogs (ls @ [l]) = addLog (groupLogs ls) l"
  by (simp add: groupLogs_def)

lemma groupLogs_eq:
  "groupLogs ls =
     map (\<lambda>k. (k, \<lparr>logs = logsOfDay k ls, workingTime = 0, lunchTime = 0\<rparr>)) (dayKeys ls)"
proof (induction ls rule: rev_induct)
  case Nil
  then show ?case by (simp add: groupLogs_def dayKeys_def)
next
  case (snoc l ls)
  let ?entry = "\<lambda>ls k. (k, \<lparr>logs = logsOfDay k ls, workingTime = 0, lunchTime = 0\<rparr>)"
  have none: "map_of (map (?entry ls) (dayKeys ls)) k = None \<longleftrightarrow> k \<notin> dateOf ` set ls" for k
    by (simp add: map_of_eq_None_iff image_image set_dayKeys)
  show ?case
  proof (cases "dateOf l \<in> dateOf ` set ls")
    case True
    then show ?thesis
      by (simp add: groupLogs_snoc snoc.IH addLog_def none dayKeys_snoc logsOfDay_snoc
          flip: dateOf_def)
  next
    case False
    then have "\<forall>k\<in>set (dayKeys ls). dateOf l \<noteq> k" "\<forall>k\<in>set (dayKeys ls). k \<noteq> dateOf l"
      "\<forall>x\<in>set ls. dateOf x \<noteq> dateOf l"
      by (auto simp: set_dayKeys image_iff)
    with False show ?thesis
      by (simp add: groupLogs_snoc snoc.IH addLog_def none dayKeys_snoc logsOfDay_snoc
          logsOfDay_absent Let_def flip: dateOf_def)
  qed
qed

lemma update_distinct:
  assumes "distinct (map fst r)" and "map_of r k = Some e"
  shows "AList.update k v r = map (\<lambda>(k', e'). if k' = k then (k', v) else (k', e')) r"
  using assms
proof (induction r)
  case Nil
  then show ?case by simp
next
  case (Cons p r)
  obtain k0 e0 where p: "p = (k0, e0)" by (cases p)
  show ?case
  proof (cases "k0 = k")
    case True
    with Cons.prems p have "k \<notin> fst ` set r" by auto
    then have "map (\<lambda>(k', e'). if k' = k then (k', v) else (k', e')) r = r"
      by (induction r) auto
    with True p show ?thesis by simp
  next
    case False
    with Cons p show ?thesis by simp
  qed
qed

lemma processDate_fold:
  assumes "distinct (map fst r)" and "distinct ks" and "set ks \<subseteq> set (map fst r)"
  shows "foldl processDate (r, t) ks =
           (map (\<lambda>(k, e). if k \<in> set ks then (k, replayed e) else (k, e)) r,
            t + sum_list (map (\<lambda>k. workingTime_st (replayDay (logs (the (map_of r k))))) ks))"
  using assms
proof (induction ks arbitrary: r t)
  case Nil
  then show ?case by simp
next
  case (Cons k ks)
  from Cons.prems(3) obtain e where e: "map_of r k = Some e"
    by (cases "map_of r k") (auto simp: map_of_eq_None_iff)
  let ?r = "map (\<lambda>(k', e'). if k' = k then (k', replayed e) else (k', e')) r"
  have "processDate (r, t) k =
      (AList.update k (replayed e) r, t + workingTime_st (replayDay (logs e)))"
    using e by (simp add: processDate_def replayed_def Let_def)
  then have step: "processDate (r, t) k = (?r, t + workingTime_st (replayDay (logs e)))"
    by (simp only: update_distinct[OF Cons.prems(1) e])
  have keys: "map fst ?r = map fst r"
    by (induction r) auto
  have other: "map_of ?r k' = map_of r k'" if "k' \<noteq> k" for k'
    using that by (induction r) auto
  have same: "map (\<lambda>(k', e'). if k' = k then (k', replayed e) else (k', e')) r =
      map (\<lambda>(k', e'). if k' = k then (k', replayed e') else (k', e')) r"
  proof (rule map_cong[OF refl])
    fix p assume p: "p \<in> set r"
    obtain k' e' where p': "p = (k', e')" by (cases p)
    have "snd p = e" if "fst p = k"
      using that p p' map_of_is_SomeI[OF Cons.prems(1), of k' e'] e by simp
    then show "(case p of (k', e') \<Rightarrow> if k' = k then (k', replayed e) else (k', e')) =
        (case p of (k', e') \<Rightarrow> if k' = k then (k', replayed e') else (k', e'))"
      by (cases p) auto
  qed
  from Cons.prems have d: "distinct (map fst ?r)" "distinct ks" "set ks \<subseteq> set (map fst ?r)"
      "k \<notin> set ks"
    by (simp_all only: keys) simp_all
  have sum: "map (\<lambda>k'. workingTime_st (replayDay (logs (the (map_of ?r k'))))) ks =
      map (\<lambda>k'. workingTime_st (replayDay (logs (the (map_of r k'))))) ks"
  proof (rule map_cong[OF refl])
    fix k' assume "k' \<in> set ks"
    with d(4) have "k' \<noteq> k" by auto
    from other[OF this]
    show "workingTime_st (replayDay (logs (the (map_of ?r k')))) =
        workingTime_st (replayDay (logs (the (map_of r k'))))"
      by (rule arg_cong)
  qed
  have "foldl processDate (r, t) (k # ks) =
      foldl processDate (?r, t + workingTime_st (replayDay (logs e))) ks"
    using step by simp
  also have "\<dots> = (map (\<lambda>(k', e'). if k' \<in> set ks then (k', replayed e') else (k', e')) ?r,
      t + workingTime_st (replayDay (logs e)) +
        sum_list (map (\<lambda>k'. workingTime_st (replayDay (logs (the (map_of r k'))))) ks))"
    using Cons.IH[OF d(1,2,3)] sum by simp
  also have "map (\<lambda>(k', e'). if k' \<in> set ks then (k', replayed e') else (k', e')) ?r =
      map (\<lambda>(k', e'). if k' \<in> set (k # ks) then (k', replayed e') else (k', e')) r"
    unfolding same using d(4) by (auto simp: case_prod_beta)
  finally show ?case using e by simp
qed

lemma processDays_eq:
  assumes "distinct (map fst r)"
  shows "processDays r =
           (map (\<lambda>(k, e). (k, replayed e)) r,
            sum_list (map (\<lambda>(k, e). workingTime_st (replayDay (logs e))) r))"
proof -
  have a: "map (\<lambda>k. workingTime_st (replayDay (logs (the (map_of r k))))) (map fst r) =
      map (\<lambda>(k, e). workingTime_st (replayDay (logs e))) r"
    using assms by (auto simp: case_prod_beta)
  have b: "map (\<lambda>(k, e). if k \<in> set (map fst r) then (k, replayed e) else (k, e)) r =
      map (\<lambda>(k, e). (k, replayed e)) r"
    by (auto simp: rev_image_eqI)
  have "processDays r =
      (map (\<lambda>(k, e). if k \<in> set (map fst r) then (k, replayed e) else (k, e)) r,
       0 + sum_list (map (\<lambda>k. workingTime_st (replayDay (logs (the (map_of r k))))) (map fst r)))"
    unfolding processDays_def by (rule processDate_fold[OF assms assms]) simp
  then show ?thesis
    by (simp only: a b add_0)
qed

lemma groupLogs_distinct: "distinct (map fst (groupLogs ls))"
  by (simp add: groupLogs_eq comp_def distinct_dayKeys)

lemma processDays_groupLogs:
  "processDays (groupLogs ls) =
     (map (dayEntry ls) (dayKeys ls),
      sum_list (map (\<lambda>k. workingTime_st (replayDay (logsOfDay k ls))) (dayKeys ls)))"
  unfolding processDays_eq[OF groupLogs_distinct]
  by (simp add: groupLogs_eq replayed_def comp_def dayEntry_def)

lemma timecard_fields:
  assumes "getClockEmployee db i = Some e"
  obtains tc where "getEmployeeTimeCard db i s t = Inr tc"
    and "employee_tc tc = e"
    and "dailyReport_tc tc = map (dayEntry (selectLogs db i s t)) (dayKeys (selectLogs db i s t))"
    and "totalWorkingTime_tc tc =
           sum_list (map (\<lambda>k. workingTime_st (replayDay (logsOfDay k (selectLogs db i s t))))
             (dayKeys (selectLogs db i s t)))"
    and "totalPay_tc tc =
           toFixed (totalPay (totalWorkingTime_tc tc) (payRate e)) 2"
    and "startDate_tc tc = toISODate s" and "endDate_tc tc = toISODate t"
proof -
  obtain r w where rw: "processDays (groupLogs (selectLogs db i s t)) = (r, w)"
    by (cases "processDays (groupLogs (selectLogs db i s t))")
  let ?tc = "\<lparr>employee_tc = e, dailyReport_tc = r, totalWorkingTime_tc = w,
      totalPay_tc = toFixed (totalPay w (payRate e)) 2,
      startDate_tc = toISODate s, endDate_tc = toISODate t\<rparr>"
  have "getEmployeeTimeCard db i s t = Inr ?tc"
    using assms rw by (simp add: getEmployeeTimeCard_def)
  moreover from rw have "r = map (dayEntry (selectLogs db i s t)) (dayKeys (selectLogs db i s t))"
    and "w = sum_list (map (\<lambda>k. workingTime_st (replayDay (logsOfDay k (selectLogs db i s t))))
             (dayKeys (selectLogs db i s t)))"
    by (simp_all add: processDays_groupLogs)
  ultimately show thesis
    by (intro that[of ?tc]) simp_all
qed

lemma dayEntry_workingTime:
  "map (\<lambda>(date, entry). workingTime entry) (map (dayEntry ls) ks) =
     map (\<lambda>k. workingTime_st (replayDay (logsOfDay k ls))) ks"
  by (simp add: dayEntry_def comp_def)

lemma selectLogs_mset:
  "mset (selectLogs db i s t) =
     mset (filter (\<lambda>l. employeeId l = i \<and> s \<le> timestamp l \<and> timestamp l \<le> t) (clockLogs db))"
  by (simp add: selectLogs_def orderByTimestamp_def)

lemma selectLogs_sorted: "sorted (map timestamp (selectLogs db i s t))"
  by (simp add: selectLogs_def orderByTimestamp_def)

lemma logsOfDay_other:
  "k' \<noteq> k \<Longrightarrow> logsOfDay k' (filter (\<lambda>l. dateOf l \<noteq> k) ls) = logsOfDay k' ls"
  unfolding logsOfDay_def filter_filter by (rule filter_cong) auto

lemma concat_days_mset:
  assumes "distinct ks" and "dateOf ` set ls \<subseteq> set ks"
  shows "mset (concat (map (\<lambda>k. logsOfDay k ls) ks)) = mset ls"
  using assms
proof (induction ks arbitrary: ls)
  case Nil
  then show ?case by simp
next
  case (Cons k ks)
  let ?rest = "filter (\<lambda>l. dateOf l \<noteq> k) ls"
  have eq: "map (\<lambda>k'. logsOfDay k' ls) ks = map (\<lambda>k'. logsOfDay k' ?rest) ks"
  proof (rule map_cong[OF refl])
    fix k' assume "k' \<in> set ks"
    with Cons.prems(1) have "k' \<noteq> k" by auto
    then show "logsOfDay k' ls = logsOfDay k' ?rest"
      by (simp add: logsOfDay_other)
  qed
  have ih: "mset (concat (map (\<lambda>k'. logsOfDay k' ?rest) ks)) = mset ?rest"
    using Cons.prems by (intro Cons.IH) auto
  have part: "mset (logsOfDay k ls) + mset ?rest = mset ls"
    unfolding logsOfDay_def mset_filter by (rule multiset_partition[symmetric])
  have "mset (concat (map (\<lambda>k. logsOfDay k ls) (k # ks))) =
      mset (logsOfDay k ls) + mset (concat (map (\<lambda>k'. logsOfDay k' ls) ks))"
    by simp
  also have "\<dots> = mset (logsOfDay k ls) + mset ?rest"
    by (simp only: eq ih)
  also note part
  finally show ?case .
qed

lemma timecard_returned:
  assumes "getEmployeeTimeCard db i s t = Inr tc"
  shows "getClockEmployee db i = Some (employee_tc tc)"
    and "dailyReport_tc tc = map (dayEntry (selectLogs db i s t)) (dayKeys (selectLogs db i s t))"
    and "totalWorkingTime_tc tc =
           sum_list (map (\<lambda>k. workingTime_st (replayDay (logsOfDay k (selectLogs db i s t))))
             (dayKeys (selectLogs db i s t)))"
    and "totalPay_tc tc = toFixed (totalPay (totalWorkingTime_tc tc) (payRate (employee_tc tc))) 2"
proof -
  from assms obtain e where e: "getClockEmployee db i = Some e"
    by (cases "getClockEmployee db i") (simp_all add: getEmployeeTimeCard_def)
  from timecard_fields[OF e, of s t] obtain tc' where
    "getEmployeeTimeCard db i s t = Inr tc'" "employee_tc tc' = e"
    "dailyReport_tc tc' = map (dayEntry (selectLogs db i s t)) (dayKeys (selectLogs db i s t))"
    "totalWorkingTime_tc tc' =
       sum_list (map (\<lambda>k. workingTime_st (replayDay (logsOfDay k (selectLogs db i s t))))
         (dayKeys (selectLogs db i s t)))"
    "totalPay_tc tc' = toFixed (totalPay (totalWorkingTime_tc tc') (payRate e)) 2"
    by blast
  moreover from this(1) assms have "tc' = tc" by simp
  ultimately show "getClockEmployee db i = Some (employee_tc tc)"
    and "dailyReport_tc tc = map (dayEntry (selectLogs db i s t)) (dayKeys (selectLogs db i s t))"
    and "totalWorkingTime_tc tc =
           sum_list (map (\<lambda>k. workingTime_st (replayDay (logsOfDay k (selectLogs db i s t))))
             (dayKeys (selectLogs db i s t)))"
    and "totalPay_tc tc = toFixed (totalPay (totalWorkingTime_tc tc) (payRate (employee_tc tc))) 2"
    using e by simp_all
qed

lemma logsOfDay_sorted: "sorted (map timestamp ls) \<Longrightarrow> sorted (map timestamp (logsOfDay k ls))"
  unfolding logsOfDay_def by (rule sorted_filter)

lemma entry_replayed:
  assumes "getEmployeeTimeCard db i s t = Inr tc" and "(date, entry) \<in> set (dailyReport_tc tc)"
  shows "sorted (map timestamp (logs entry))"
    and "workingTime entry = workingTime_st (replayDay (logs entry))"
    and "lunchTime entry = lunchTime_st (replayDay (logs entry))"
proof -
  from assms timecard_returned(2)[OF assms(1)]
  obtain k where "(date, entry) = dayEntry (selectLogs db i s t) k" by auto
  then have entry: "entry = \<lparr>logs = logsOfDay k (selectLogs db i s t),
      workingTime = workingTime_st (replayDay (logsOfDay k (selectLogs db i s t))),
      lunchTime = lunchTime_st (replayDay (logsOfDay k (selectLogs db i s t)))\<rparr>"
    by (simp add: dayEntry_def)
  show "sorted (map timestamp (logs entry))"
    unfolding entry using logsOfDay_sorted[OF selectLogs_sorted] by simp
  show "workingTime entry = workingTime_st (replayDay (logs entry))"
    and "lunchTime entry = lunchTime_st (replayDay (logs entry))"
    unfolding entry by simp_all
qed

lemma totalPay_nonneg: "0 \<le> W \<Longrightarrow> 0 \<le> c \<Longrightarrow> 0 \<le> totalPay W c"
  by (simp add: totalPay_def hours_def parseFloat_def num_mul_def num_div_def fl_nonneg)

lemma toFixed_no_minus:
  assumes "0 \<le> x"
  shows "CHR ''-'' \<notin> set (toFixed x 2)"
proof -
  let ?n = "toFixedInteger x 2"
  have n: "0 \<le> ?n" by (rule toFixedInteger_nonneg)
  then have "0 \<le> ?n div 100" "0 \<le> ?n div 10 mod 10" "?n div 10 mod 10 < 10"
    "0 \<le> ?n mod 10" "?n mod 10 < 10" by simp_all
  with digits_set[of "?n div 100"] digitChar_digit[of "?n div 10 mod 10"] digitChar_digit[of "?n mod 10"]
  have "set (digits (?n div 100)) \<subseteq> set ''0123456789''"
    "digitChar (?n div 10 mod 10) \<in> set ''0123456789''"
    "digitChar (?n mod 10) \<in> set ''0123456789''" by blast+
  moreover have "c \<noteq> CHR ''-''" if "c \<in> set ''0123456789''" for c
    using that by auto
  ultimately have "CHR ''-'' \<notin> set (digits (?n div 100))" "digitChar (?n div 10 mod 10) \<noteq> CHR ''-''"
    "digitChar (?n mod 10) \<noteq> CHR ''-''" by blast+
  with assms show ?thesis by (simp add: toFixed_two)
qed

lemma toFixed_twoDecimals: "twoDecimals (toFixed x 2)"
proof -
  let ?n = "toFixedInteger x 2"
  define D where "D = set ''0123456789''"
  have n: "0 \<le> ?n" by (rule toFixedInteger_nonneg)
  have a: "digitChar (?n div 10 mod 10) \<in> D"
    unfolding D_def by (rule digitChar_digit) (use n in simp_all)
  have b: "digitChar (?n mod 10) \<in> D"
    unfolding D_def by (rule digitChar_digit) (use n in simp_all)
  show ?thesis
    unfolding toFixed_two twoDecimals_def D_def[symmetric]
    using a b digits_nonempty[of "?n div 100"] by simp
qed

lemma exportLoop_all:
  assumes "\<forall>e\<in>set employees. getClockEmployee db (id_emp e) \<noteq> None"
  shows "\<exists>entries. exportLoop db s t employees exportData = Inr (exportData @ entries) \<and>
           list_all2 (exported db s t) employees entries"
  using assms
proof (induction employees arbitrary: exportData)
  case Nil
  then show ?case by simp
next
  case (Cons e employees)
  from Cons.prems obtain e' where "getClockEmployee db (id_emp e) = Some e'" by auto
  then obtain tc where tc: "getEmployeeTimeCard db (id_emp e) s t = Inr tc"
    by (rule timecard_fields)
  let ?entry = "\<lparr>employeeId_ex = id_emp e, employeeName = name e, payRate_ex = payRate e,
      totalHours = toFixed (hours (totalWorkingTime_tc tc)) 2,
      totalPay_ex = totalPay_tc tc, dailyBreakdown = dailyReport_tc tc\<rparr>"
  from Cons.prems have "\<forall>e\<in>set employees. getClockEmployee db (id_emp e) \<noteq> None" by simp
  from Cons.IH[OF this, of "exportData @ [?entry]"]
  obtain entries where rest: "exportLoop db s t employees (exportData @ [?entry]) =
      Inr ((exportData @ [?entry]) @ entries)"
    and all: "list_all2 (exported db s t) employees entries" by blast
  have "exported db s t e ?entry" using tc by (simp add: exported_def)
  with all have "list_all2 (exported db s t) (e # employees) (?entry # entries)" by simp
  moreover have "exportLoop db s t (e # employees) exportData = Inr (exportData @ ?entry # entries)"
    using tc rest by simp
  ultimately show ?case by blast
qed

lemma employees_found:
  "\<forall>e\<in>set (clockEmployees db). getClockEmployee db (id_emp e) \<noteq> None"
  by (auto simp: getClockEmployee_def find_None_iff)

section \<open>The examples, evaluated\<close>

text \<open>
  The time cards of the example databases, computed by \<^verbatim>\<open>getEmployeeTimeCard\<close>. The
  full day gives seven hours of work and one of lunch, \<open>175.00\<close> at the rate
  \<open>25.00\<close>; the two days of \<open>weekDb\<close> inside the range give fifteen hours.
\<close>

lemma example_dates:
  "toISODate dayStart = ''2024-01-15''"
  "toISODate dayEnd = ''2024-01-15''"
  "toISODate (dayEnd + msPerDay) = ''2024-01-16''"
  by code_simp+

lemma fullDay_card: "getEmployeeTimeCard fullDayDb ''e1'' dayStart dayEnd = Inr fullDayCard"
  by code_simp

lemma plainDay_card: "getEmployeeTimeCard plainDayDb ''e1'' dayStart dayEnd = Inr plainDayCard"
  by code_simp

lemma shortDay_card: "getEmployeeTimeCard shortDayDb ''e1'' dayStart dayEnd = Inr shortDayCard"
  by code_simp

lemma week_card: "getEmployeeTimeCard weekDb ''e1'' dayStart (dayEnd + msPerDay) = Inr weekCard"
  by code_simp

lemma week_selected:
  "selectLogs weekDb ''e1'' dayStart (dayEnd + msPerDay) = fullDay @ secondDay"
  by code_simp

text \<open>
  The doubles of the short day: 1.015 hours is not a double, the nearest double lies
  below it, and so does the product with the rate \<open>1.00\<close>.
\<close>

lemma shortDay_numbers:
  "hours 3654000 = 4571153621781053 / 2 ^ 52"
  "parseFloat 100 = 1"
  "totalPay 3654000 100 = 4571153621781053 / 2 ^ 52"
  "toFixedInteger (totalPay 3654000 100) 2 = 101"
  "exactPay 3654000 100 = 203 / 200"
  "spec_totalPay 3654000 100 = ''1.02''"
  by code_simp+

text \<open>
  A cursor at the timestamp \<open>0\<close>: a clock-in at the epoch and a clock-out an hour
  later. The specification's replay counts the hour; the code's test
  \<^verbatim>\<open>if (clockInTime)\<close> takes the cursor \<open>0\<close> for an unset one and counts nothing.
\<close>

lemma replay_epoch_cursor:
  "workingTime_st (replayDay epochDay) = 0"
  "workingTime_st (spec_replayDay epochDay) = 3600000"
  by code_simp+

section \<open>The claims about the time card\<close>

text \<open>
  C1, amended. Every entry of the daily report holds the punches of its day in
  ascending timestamp order, and, when none of these timestamps is \<open>0\<close>, its worked
  and lunch durations are those of the specified replay with the two cursors
  \<open>clockInTime\<close> and \<open>lunchOutTime\<close>, both unset at first: a clock-in sets
  \<open>clockInTime\<close>; a lunch-out with \<open>clockInTime\<close> set adds the time since it to the
  worked duration and sets \<open>lunchOutTime\<close>; a lunch-in with \<open>lunchOutTime\<close> set adds
  the time since it to the lunch duration and sets \<open>clockInTime\<close>; a clock-out with
  \<open>clockInTime\<close> set adds the time since it to the worked duration; a punch whose
  cursor is unset changes nothing. The day with punches at 09:00, 12:00, 13:00 and
  17:00 yields 7 hours worked and 1 hour of lunch, and the day with only the clock-in
  at 09:00 yields no worked time.
\<close>

theorem replay_as_specified:
  "(getEmployeeTimeCard db i s t = Inr tc \<and> (date, entry) \<in> set (dailyReport_tc tc) \<and>
      (\<forall>l\<in>set (logs entry). timestamp l \<noteq> 0) \<longrightarrow>
        sorted (map timestamp (logs entry)) \<and>
        workingTime entry = workingTime_st (spec_replayDay (logs entry)) \<and>
        lunchTime entry = lunchTime_st (spec_replayDay (logs entry)))
   \<and> workingTime_st (replayDay fullDay) = 7 * (1000 * 60 * 60)
   \<and> lunchTime_st (replayDay fullDay) = 1 * (1000 * 60 * 60)
   \<and> workingTime_st (replayDay openDay) = 0"
proof (intro conjI impI)
  assume a: "getEmployeeTimeCard db i s t = Inr tc \<and> (date, entry) \<in> set (dailyReport_tc tc) \<and>
      (\<forall>l\<in>set (logs entry). timestamp l \<noteq> 0)"
  then have tc: "getEmployeeTimeCard db i s t = Inr tc" and en: "(date, entry) \<in> set (dailyReport_tc tc)"
    and nz: "\<forall>l\<in>set (logs entry). timestamp l \<noteq> 0" by simp_all
  note r = entry_replayed[OF tc en]
  show "sorted (map timestamp (logs entry))" by (rule r(1))
  show "workingTime entry = workingTime_st (spec_replayDay (logs entry))"
    using r(2) replayDay_refines_spec[OF nz] by simp
  show "lunchTime entry = lunchTime_st (spec_replayDay (logs entry))"
    using r(3) replayDay_refines_spec[OF nz] by simp
next
  show "workingTime_st (replayDay fullDay) = 7 * (1000 * 60 * 60)" by code_simp
  show "lunchTime_st (replayDay fullDay) = 1 * (1000 * 60 * 60)" by code_simp
  show "workingTime_st (replayDay openDay) = 0" by code_simp
qed

theorem replay_as_specified_witness:
  "getEmployeeTimeCard fullDayDb ''e1'' dayStart dayEnd = Inr fullDayCard \<and>
   (''2024-01-15'', fullDayEntry) \<in> set (dailyReport_tc fullDayCard) \<and>
   0 \<notin> set (map timestamp (logs fullDayEntry)) \<and>
   sorted (map timestamp (logs fullDayEntry)) \<and>
   workingTime fullDayEntry = workingTime_st (spec_replayDay (logs fullDayEntry)) \<and>
   lunchTime fullDayEntry = lunchTime_st (spec_replayDay (logs fullDayEntry)) \<and>
   workingTime fullDayEntry = 7 * (1000 * 60 * 60) \<and>
   lunchTime fullDayEntry = 1 * (1000 * 60 * 60)"
proof -
  have nz: "\<forall>l\<in>set (logs fullDayEntry). timestamp l \<noteq> 0"
    by (simp add: fullDayEntry_def fullDay_def punch_simps)
  have en: "(''2024-01-15'', fullDayEntry) \<in> set (dailyReport_tc fullDayCard)"
    by (simp add: fullDayCard_def)
  from replay_as_specified[of fullDayDb "''e1''" dayStart dayEnd fullDayCard "''2024-01-15''"
      fullDayEntry] fullDay_card en nz
  have "sorted (map timestamp (logs fullDayEntry)) \<and>
      workingTime fullDayEntry = workingTime_st (spec_replayDay (logs fullDayEntry)) \<and>
      lunchTime fullDayEntry = lunchTime_st (spec_replayDay (logs fullDayEntry))"
    by blast
  moreover have "0 \<notin> set (map timestamp (logs fullDayEntry))"
    using nz by auto
  moreover have "workingTime fullDayEntry = 7 * (1000 * 60 * 60)"
    "lunchTime fullDayEntry = 1 * (1000 * 60 * 60)"
    by (simp_all add: fullDayEntry_def)
  ultimately show ?thesis
    using fullDay_card en by blast
qed

text \<open>
  C1 as stated has 8 hours worked for the day with punches at 09:00, 12:00, 13:00 and
  17:00. The replay it describes, and the code, count the three hours before lunch and
  the four hours after it: the time card holds 25200000 milliseconds, 7 hours, and
  one hour of lunch.
\<close>

theorem replay_full_day_counterexample:
  "getEmployeeTimeCard fullDayDb ''e1'' dayStart dayEnd = Inr fullDayCard \<and>
   dailyReport_tc fullDayCard =
     [(''2024-01-15'', \<lparr>logs = fullDay, workingTime = 25200000, lunchTime = 3600000\<rparr>)] \<and>
   totalWorkingTime_tc fullDayCard = 7 * (1000 * 60 * 60) \<and>
   totalWorkingTime_tc fullDayCard \<noteq> 8 * (1000 * 60 * 60)"
  using fullDay_card by (simp add: fullDayCard_def fullDayEntry_def)

text \<open>
  C3, amended. The total pay is \<^verbatim>\<open>toFixed(2)\<close> of the double \<open>totalPay\<close>: the worked
  duration divided by 3600000, rounded to a double, times the pay rate as a double,
  rounded to a double. The worked duration is the sum of the days' worked durations,
  so no lunch duration enters. The string is the sign, the digits of an integer \<open>n\<close>
  of hundredths with a point before the last two, where \<open>n\<close> is the integer nearest
  to a hundred times the magnitude of the double (the larger of two); \<open>n / 100\<close>
  differs from the exact product of hours and rate by at most half a hundredth and a
  relative error of \<open>1 / 2 ^ 51\<close>. With the pay rate 25.00 and 8 hours worked the
  string is \<open>200.00\<close>.
\<close>

theorem totalPay_rounding:
  "(getEmployeeTimeCard db i s t = Inr tc \<longrightarrow>
      (let W = totalWorkingTime_tc tc;
           rate = payRate (employee_tc tc);
           n = toFixedInteger (totalPay W rate) 2
       in W = sum_list (map (\<lambda>(date, entry). workingTime entry) (dailyReport_tc tc)) \<and>
          totalPay_tc tc = toFixed (totalPay W rate) 2 \<and>
          totalPay_tc tc =
            (if totalPay W rate < 0 then ''-'' else []) @ digits (n div 100) @ ''.'' @
              [digitChar (n div 10 mod 10), digitChar (n mod 10)] \<and>
          \<bar>of_int n / 100 - \<bar>exactPay W rate\<bar>\<bar> \<le> 1 / 200 + \<bar>exactPay W rate\<bar> / 2 ^ 51))
   \<and> toFixed (totalPay (8 * (1000 * 60 * 60)) 2500) 2 = ''200.00''"
proof (intro conjI impI)
  assume tc: "getEmployeeTimeCard db i s t = Inr tc"
  define W where "W = totalWorkingTime_tc tc"
  define rate where "rate = payRate (employee_tc tc)"
  define n where "n = toFixedInteger (totalPay W rate) 2"
  have 1: "W = sum_list (map (\<lambda>(date, entry). workingTime entry) (dailyReport_tc tc))"
    unfolding W_def timecard_returned(2,3)[OF tc] dayEntry_workingTime ..
  have 2: "totalPay_tc tc = toFixed (totalPay W rate) 2"
    unfolding W_def rate_def by (rule timecard_returned(4)[OF tc])
  have 3: "totalPay_tc tc =
            (if totalPay W rate < 0 then ''-'' else []) @ digits (n div 100) @ ''.'' @
              [digitChar (n div 10 mod 10), digitChar (n mod 10)]"
    unfolding 2 n_def by (rule toFixed_two)
  have "\<bar>of_int n / 100 - \<bar>exactPay W rate\<bar>\<bar> \<le>
      \<bar>of_int n / 100 - \<bar>totalPay W rate\<bar>\<bar> + \<bar>totalPay W rate - exactPay W rate\<bar>"
    by linarith
  with toFixedInteger_error[of "totalPay W rate"] totalPay_error[of W rate]
  have 4: "\<bar>of_int n / 100 - \<bar>exactPay W rate\<bar>\<bar> \<le> 1 / 200 + \<bar>exactPay W rate\<bar> / 2 ^ 51"
    unfolding n_def by linarith
  from 1 2 3 4 show "let W = totalWorkingTime_tc tc;
           rate = payRate (employee_tc tc);
           n = toFixedInteger (totalPay W rate) 2
       in W = sum_list (map (\<lambda>(date, entry). workingTime entry) (dailyReport_tc tc)) \<and>
          totalPay_tc tc = toFixed (totalPay W rate) 2 \<and>
          totalPay_tc tc =
            (if totalPay W rate < 0 then ''-'' else []) @ digits (n div 100) @ ''.'' @
              [digitChar (n div 10 mod 10), digitChar (n mod 10)] \<and>
          \<bar>of_int n / 100 - \<bar>exactPay W rate\<bar>\<bar> \<le> 1 / 200 + \<bar>exactPay W rate\<bar> / 2 ^ 51"
    unfolding Let_def W_def rate_def n_def by blast
next
  show "toFixed (totalPay (8 * (1000 * 60 * 60)) 2500) 2 = ''200.00''" by code_simp
qed

theorem totalPay_rounding_witness:
  "getEmployeeTimeCard plainDayDb ''e1'' dayStart dayEnd = Inr plainDayCard \<and>
   totalWorkingTime_tc plainDayCard = 8 * (1000 * 60 * 60) \<and>
   payRate (employee_tc plainDayCard) = 2500 \<and>
   totalPay_tc plainDayCard = ''200.00'' \<and>
   totalPay_tc plainDayCard = toFixed (totalPay 28800000 2500) 2 \<and>
   \<bar>of_int (toFixedInteger (totalPay 28800000 2500) 2) / 100 - \<bar>exactPay 28800000 2500\<bar>\<bar>
     \<le> 1 / 200 + \<bar>exactPay 28800000 2500\<bar> / 2 ^ 51"
  using totalPay_rounding[of plainDayDb "''e1''" dayStart dayEnd plainDayCard] plainDay_card
  by (simp add: plainDayCard_def emp_simps Let_def)

text \<open>
  C3 as stated, the exact product rounded to two decimal places, fails on the short
  day: 3654000 milliseconds at the rate 1.00 are exactly 1.015, which rounds to 1.02,
  and the time card says \<open>1.01\<close>, because the double nearest to 1.015 lies below
  it.
\<close>

theorem totalPay_rounding_counterexample:
  "getEmployeeTimeCard shortDayDb ''e1'' dayStart dayEnd = Inr shortDayCard \<and>
   totalWorkingTime_tc shortDayCard = 3654000 \<and>
   payRate (employee_tc shortDayCard) = 100 \<and>
   totalPay_tc shortDayCard = ''1.01'' \<and>
   exactPay 3654000 100 = 203 / 200 \<and>
   spec_totalPay 3654000 100 = ''1.02''"
  using shortDay_card shortDay_numbers by (simp add: shortDayCard_def emp_simps)

text \<open>
  C4. For an employee that exists, and any range and punch log,
  \<^verbatim>\<open>getEmployeeTimeCard\<close> returns a time card whose total worked duration is the sum
  of the worked durations of its daily report entries.
\<close>

theorem totalWorkingTime_sum_of_days:
  assumes "getClockEmployee db i = Some e"
  shows "\<exists>tc. getEmployeeTimeCard db i s t = Inr tc \<and>
           totalWorkingTime_tc tc =
             sum_list (map (\<lambda>(date, entry). workingTime entry) (dailyReport_tc tc))"
proof -
  from assms obtain tc where tc: "getEmployeeTimeCard db i s t = Inr tc"
    and r: "dailyReport_tc tc = map (dayEntry (selectLogs db i s t)) (dayKeys (selectLogs db i s t))"
    and w: "totalWorkingTime_tc tc =
           sum_list (map (\<lambda>k. workingTime_st (replayDay (logsOfDay k (selectLogs db i s t))))
             (dayKeys (selectLogs db i s t)))"
    by (rule timecard_fields)
  have "totalWorkingTime_tc tc =
      sum_list (map (\<lambda>(date, entry). workingTime entry) (dailyReport_tc tc))"
    unfolding r w dayEntry_workingTime ..
  with tc show ?thesis by blast
qed

theorem totalWorkingTime_sum_of_days_witness:
  "getClockEmployee weekDb ''e1'' = Some (emp ''e1'' 2500 ''inactive'') \<and>
   (\<exists>tc. getEmployeeTimeCard weekDb ''e1'' dayStart (dayEnd + msPerDay) = Inr tc \<and>
      totalWorkingTime_tc tc =
        sum_list (map (\<lambda>(date, entry). workingTime entry) (dailyReport_tc tc)) \<and>
      map (\<lambda>(date, entry). workingTime entry) (dailyReport_tc tc) = [25200000, 28800000] \<and>
      totalWorkingTime_tc tc = 54000000)"
proof -
  have e: "getClockEmployee weekDb ''e1'' = Some (emp ''e1'' 2500 ''inactive'')"
    by (simp add: getClockEmployee_def weekDb_def emp_simps)
  from totalWorkingTime_sum_of_days[OF e, of dayStart "dayEnd + msPerDay"] week_card
  have total: "totalWorkingTime_tc weekCard =
      sum_list (map (\<lambda>(date, entry). workingTime entry) (dailyReport_tc weekCard))"
    by simp
  have days:
    "map (\<lambda>(date, entry). workingTime entry) (dailyReport_tc weekCard) = [25200000, 28800000]"
    "totalWorkingTime_tc weekCard = 54000000"
    by (simp_all add: weekCard_def fullDayEntry_def)
  show ?thesis
    by (intro conjI exI[of _ weekCard]) (rule e week_card total days)+
qed

text \<open>
  C5. For every range, \<^verbatim>\<open>exportAllHours\<close> returns one entry for each employee row, in
  the order of the rows. The entry carries the employee's identifier, name and pay
  rate, the total hours as a string with two decimals, the \<^verbatim>\<open>totalPay\<close> of
  \<^verbatim>\<open>getEmployeeTimeCard\<close> for that employee over the same range, and its daily report.
\<close>

theorem exportAllHours_entries:
  "\<exists>entries.
     exportAllHours db s t =
       Inr \<lparr>startDate_ex = toISODate s, endDate_ex = toISODate t, employees_ex = entries\<rparr> \<and>
     length entries = length (clockEmployees db) \<and>
     (\<forall>k < length entries.
        \<exists>tc. getEmployeeTimeCard db (id_emp (clockEmployees db ! k)) s t = Inr tc \<and>
             employeeId_ex (entries ! k) = id_emp (clockEmployees db ! k) \<and>
             employeeName (entries ! k) = name (clockEmployees db ! k) \<and>
             payRate_ex (entries ! k) = payRate (clockEmployees db ! k) \<and>
             totalHours (entries ! k) = toFixed (hours (totalWorkingTime_tc tc)) 2 \<and>
             twoDecimals (totalHours (entries ! k)) \<and>
             totalPay_ex (entries ! k) = totalPay_tc tc \<and>
             dailyBreakdown (entries ! k) = dailyReport_tc tc)"
proof -
  from exportLoop_all[OF employees_found, of db s t "[]"]
  obtain entries where loop: "exportLoop db s t (clockEmployees db) [] = Inr entries"
    and all: "list_all2 (exported db s t) (clockEmployees db) entries" by auto
  have 1: "exportAllHours db s t =
      Inr \<lparr>startDate_ex = toISODate s, endDate_ex = toISODate t, employees_ex = entries\<rparr>"
    using loop by (simp add: exportAllHours_def getClockEmployees_def)
  have 2: "length entries = length (clockEmployees db)"
    using all by (simp add: list_all2_lengthD)
  have 3: "\<exists>tc. getEmployeeTimeCard db (id_emp (clockEmployees db ! k)) s t = Inr tc \<and>
             employeeId_ex (entries ! k) = id_emp (clockEmployees db ! k) \<and>
             employeeName (entries ! k) = name (clockEmployees db ! k) \<and>
             payRate_ex (entries ! k) = payRate (clockEmployees db ! k) \<and>
             totalHours (entries ! k) = toFixed (hours (totalWorkingTime_tc tc)) 2 \<and>
             twoDecimals (totalHours (entries ! k)) \<and>
             totalPay_ex (entries ! k) = totalPay_tc tc \<and>
             dailyBreakdown (entries ! k) = dailyReport_tc tc" if "k < length entries" for k
  proof -
    from all that 2 have "exported db s t (clockEmployees db ! k) (entries ! k)"
      by (simp add: list_all2_nthD2)
    then show ?thesis
      by (auto simp: exported_def toFixed_twoDecimals split: sum.splits)
  qed
  from 1 2 3 show ?thesis by blast
qed

theorem exportAllHours_entries_witness:
  "\<exists>entries.
     exportAllHours weekDb dayStart (dayEnd + msPerDay) =
       Inr \<lparr>startDate_ex = ''2024-01-15'', endDate_ex = ''2024-01-16'', employees_ex = entries\<rparr> \<and>
     length entries = 2 \<and>
     employeeId_ex (entries ! 0) = ''e1'' \<and>
     employeeName (entries ! 0) = ''Alice'' \<and>
     payRate_ex (entries ! 0) = 2500 \<and>
     totalPay_ex (entries ! 0) = ''375.00'' \<and>
     dailyBreakdown (entries ! 0) = dailyReport_tc weekCard \<and>
     employeeId_ex (entries ! 1) = ''e2'' \<and>
     employeeName (entries ! 1) = ''Bob''"
proof -
  from exportAllHours_entries[of weekDb dayStart "dayEnd + msPerDay"]
  obtain entries where ex: "exportAllHours weekDb dayStart (dayEnd + msPerDay) =
      Inr \<lparr>startDate_ex = toISODate dayStart, endDate_ex = toISODate (dayEnd + msPerDay),
           employees_ex = entries\<rparr>"
    and len: "length entries = length (clockEmployees weekDb)"
    and each: "\<forall>k < length entries.
        \<exists>tc. getEmployeeTimeCard weekDb (id_emp (clockEmployees weekDb ! k)) dayStart
               (dayEnd + msPerDay) = Inr tc \<and>
             employeeId_ex (entries ! k) = id_emp (clockEmployees weekDb ! k) \<and>
             employeeName (entries ! k) = name (clockEmployees weekDb ! k) \<and>
             payRate_ex (entries ! k) = payRate (clockEmployees weekDb ! k) \<and>
             totalHours (entries ! k) = toFixed (hours (totalWorkingTime_tc tc)) 2 \<and>
             twoDecimals (totalHours (entries ! k)) \<and>
             totalPay_ex (entries ! k) = totalPay_tc tc \<and>
             dailyBreakdown (entries ! k) = dailyReport_tc tc"
    by blast
  have len2: "length entries = 2" using len by (simp add: weekDb_def)
  have rows: "clockEmployees weekDb ! 0 = emp ''e1'' 2500 ''inactive''"
    "clockEmployees weekDb ! Suc 0 = bob"
    by (simp_all add: weekDb_def)
  from each len2 have
    "\<exists>tc. getEmployeeTimeCard weekDb (id_emp (clockEmployees weekDb ! 0)) dayStart
               (dayEnd + msPerDay) = Inr tc \<and>
             employeeId_ex (entries ! 0) = id_emp (clockEmployees weekDb ! 0) \<and>
             employeeName (entries ! 0) = name (clockEmployees weekDb ! 0) \<and>
             payRate_ex (entries ! 0) = payRate (clockEmployees weekDb ! 0) \<and>
             totalHours (entries ! 0) = toFixed (hours (totalWorkingTime_tc tc)) 2 \<and>
             twoDecimals (totalHours (entries ! 0)) \<and>
             totalPay_ex (entries ! 0) = totalPay_tc tc \<and>
             dailyBreakdown (entries ! 0) = dailyReport_tc tc"
    by simp
  then have first: "employeeId_ex (entries ! 0) = ''e1''" "employeeName (entries ! 0) = ''Alice''"
    "payRate_ex (entries ! 0) = 2500" "totalPay_ex (entries ! 0) = ''375.00''"
    "dailyBreakdown (entries ! 0) = dailyReport_tc weekCard"
    using week_card by (auto simp: rows emp_simps weekCard_def)
  from each len2 have
    "\<exists>tc. getEmployeeTimeCard weekDb (id_emp (clockEmployees weekDb ! 1)) dayStart
               (dayEnd + msPerDay) = Inr tc \<and>
             employeeId_ex (entries ! 1) = id_emp (clockEmployees weekDb ! 1) \<and>
             employeeName (entries ! 1) = name (clockEmployees weekDb ! 1) \<and>
             payRate_ex (entries ! 1) = payRate (clockEmployees weekDb ! 1) \<and>
             totalHours (entries ! 1) = toFixed (hours (totalWorkingTime_tc tc)) 2 \<and>
             twoDecimals (totalHours (entries ! 1)) \<and>
             totalPay_ex (entries ! 1) = totalPay_tc tc \<and>
             dailyBreakdown (entries ! 1) = dailyReport_tc tc"
    by simp
  then have second: "employeeId_ex (entries ! 1) = ''e2''" "employeeName (entries ! 1) = ''Bob''"
    by (auto simp: rows bob_def)
  from ex len2 first second show ?thesis
    by (auto simp: example_dates)
qed

text \<open>
  C8. For an employee that exists, \<^verbatim>\<open>getEmployeeTimeCard\<close> returns a time card made
  from exactly the employee's punches with a timestamp from \<^verbatim>\<open>startDate\<close> to
  \<^verbatim>\<open>endDate\<close>, both included, taken in ascending timestamp order. The daily report
  has one entry for each UTC calendar date on which such a punch falls, keyed by that
  date, and the entry holds the punches of the date in that order: together the
  entries hold every considered punch once. The date of a punch is the date of the
  UTC midnight of its day, \<open>timestamp div msPerDay * msPerDay\<close>.
\<close>

theorem timecard_selects_and_groups:
  assumes "getClockEmployee db i = Some e"
  shows "\<exists>tc. getEmployeeTimeCard db i s t = Inr tc \<and>
           mset (selectLogs db i s t) =
             mset (filter (\<lambda>l. employeeId l = i \<and> s \<le> timestamp l \<and> timestamp l \<le> t)
                    (clockLogs db)) \<and>
           sorted (map timestamp (selectLogs db i s t)) \<and>
           distinct (map fst (dailyReport_tc tc)) \<and>
           set (map fst (dailyReport_tc tc)) =
             (\<lambda>l. toISODate (timestamp l)) ` set (selectLogs db i s t) \<and>
           (\<forall>(date, entry) \<in> set (dailyReport_tc tc).
              logs entry =
                filter (\<lambda>l. toISODate (timestamp l) = date) (selectLogs db i s t)) \<and>
           mset (concat (map (\<lambda>(date, entry). logs entry) (dailyReport_tc tc))) =
             mset (selectLogs db i s t) \<and>
           (\<forall>l \<in> set (selectLogs db i s t).
              toISODate (timestamp l) = toISODate (timestamp l div msPerDay * msPerDay))"
proof -
  let ?ls = "selectLogs db i s t"
  from assms obtain tc where tc: "getEmployeeTimeCard db i s t = Inr tc"
    and r: "dailyReport_tc tc = map (dayEntry ?ls) (dayKeys ?ls)"
    by (rule timecard_fields)
  have keys: "map fst (dailyReport_tc tc) = dayKeys ?ls"
    unfolding r by (simp add: dayEntry_def comp_def)
  have logs: "map (\<lambda>(date, entry). logs entry) (dailyReport_tc tc) =
      map (\<lambda>k. logsOfDay k ?ls) (dayKeys ?ls)"
    unfolding r by (simp add: dayEntry_def comp_def)
  have 1: "distinct (map fst (dailyReport_tc tc))"
    unfolding keys by (rule distinct_dayKeys)
  have 2: "set (map fst (dailyReport_tc tc)) = (\<lambda>l. toISODate (timestamp l)) ` set ?ls"
    unfolding keys set_dayKeys by (simp add: dateOf_def[abs_def])
  have 3: "\<forall>(date, entry) \<in> set (dailyReport_tc tc).
      logs entry = filter (\<lambda>l. toISODate (timestamp l) = date) ?ls"
    unfolding r by (auto simp: dayEntry_def logsOfDay_def dateOf_def)
  have 4: "mset (concat (map (\<lambda>(date, entry). logs entry) (dailyReport_tc tc))) = mset ?ls"
    unfolding logs by (rule concat_days_mset) (simp_all add: distinct_dayKeys set_dayKeys)
  have 5: "toISODate u = toISODate (u div msPerDay * msPerDay)" for u
    by (simp add: toISODate_def msPerDay_def)
  from tc 1 2 3 4 5 selectLogs_mset[of db i s t] selectLogs_sorted[of db i s t]
  show ?thesis by blast
qed

theorem timecard_selects_and_groups_witness:
  "getClockEmployee weekDb ''e1'' = Some (emp ''e1'' 2500 ''inactive'') \<and>
   selectLogs weekDb ''e1'' dayStart (dayEnd + msPerDay) = fullDay @ secondDay \<and>
   (\<exists>tc. getEmployeeTimeCard weekDb ''e1'' dayStart (dayEnd + msPerDay) = Inr tc \<and>
      map fst (dailyReport_tc tc) = [''2024-01-15'', ''2024-01-16''] \<and>
      map (\<lambda>(date, entry). logs entry) (dailyReport_tc tc) = [fullDay, secondDay] \<and>
      distinct (map fst (dailyReport_tc tc)) \<and>
      mset (concat (map (\<lambda>(date, entry). logs entry) (dailyReport_tc tc))) =
        mset (selectLogs weekDb ''e1'' dayStart (dayEnd + msPerDay)))"
proof -
  have e: "getClockEmployee weekDb ''e1'' = Some (emp ''e1'' 2500 ''inactive'')"
    by (simp add: getClockEmployee_def weekDb_def emp_simps)
  from timecard_selects_and_groups[OF e, of dayStart "dayEnd + msPerDay"] week_card
  have grouped: "distinct (map fst (dailyReport_tc weekCard))"
    "mset (concat (map (\<lambda>(date, entry). logs entry) (dailyReport_tc weekCard))) =
       mset (selectLogs weekDb ''e1'' dayStart (dayEnd + msPerDay))"
    by simp_all
  have days: "map fst (dailyReport_tc weekCard) = [''2024-01-15'', ''2024-01-16'']"
    "map (\<lambda>(date, entry). logs entry) (dailyReport_tc weekCard) = [fullDay, secondDay]"
    by (simp_all add: weekCard_def fullDayEntry_def)
  show ?thesis
    by (intro conjI exI[of _ weekCard]) (rule e week_card week_selected grouped days)+
qed

text \<open>
  C9, amended. For an identifier that no employee row carries,
  \<^verbatim>\<open>getEmployeeTimeCard\<close> fails with "Employee not found", whether the log holds
  punches of that identifier or not: it computes no time card and assumes no pay rate.
\<close>

theorem timecard_missing_employee:
  "getClockEmployee db i = None \<Longrightarrow> getEmployeeTimeCard db i s t = Inl EmployeeNotFound"
  by (simp add: getEmployeeTimeCard_def)

theorem timecard_missing_employee_witness:
  "getClockEmployee weekDb ''e3'' = None \<and>
   getEmployeeTimeCard weekDb ''e3'' dayStart dayEnd = Inl EmployeeNotFound"
  using timecard_missing_employee[of weekDb "''e3''" dayStart dayEnd]
  by (simp add: getClockEmployee_def weekDb_def emp_simps bob_def)

text \<open>
  C9 as stated has the computation succeed for an identifier with punches and no
  employee row. With the punches of the full day in the log and no employee row, the
  call fails.
\<close>

theorem timecard_missing_employee_counterexample:
  "getClockEmployee \<lparr>clockEmployees = [], clockLogs = fullDay\<rparr> ''e1'' = None \<and>
   selectLogs \<lparr>clockEmployees = [], clockLogs = fullDay\<rparr> ''e1'' dayStart dayEnd = fullDay \<and>
   getEmployeeTimeCard \<lparr>clockEmployees = [], clockLogs = fullDay\<rparr> ''e1'' dayStart dayEnd =
     Inl EmployeeNotFound"
  by code_simp

text \<open>
  C10. On a punch list with timestamps in ascending order the replay gives a
  non-negative worked duration and a non-negative lunch duration. In a time card that
  \<^verbatim>\<open>getEmployeeTimeCard\<close> returns, every entry's two durations and the total worked
  duration are non-negative, and for a non-negative pay rate so is the total pay: the
  number is not below zero and its string has no minus sign.
\<close>

theorem durations_nonnegative:
  "(sorted (map timestamp dayLogs) \<longrightarrow>
      0 \<le> workingTime_st (replayDay dayLogs) \<and> 0 \<le> lunchTime_st (replayDay dayLogs))
   \<and> (getEmployeeTimeCard db i s t = Inr tc \<longrightarrow>
        (\<forall>(date, entry)\<in>set (dailyReport_tc tc). 0 \<le> workingTime entry \<and> 0 \<le> lunchTime entry) \<and>
        0 \<le> totalWorkingTime_tc tc \<and>
        (0 \<le> payRate (employee_tc tc) \<longrightarrow>
           0 \<le> totalPay (totalWorkingTime_tc tc) (payRate (employee_tc tc)) \<and>
           totalPay_tc tc = toFixed (totalPay (totalWorkingTime_tc tc) (payRate (employee_tc tc))) 2 \<and>
           CHR ''-'' \<notin> set (totalPay_tc tc)))"
proof (intro conjI impI)
  assume "sorted (map timestamp dayLogs)"
  then show "0 \<le> workingTime_st (replayDay dayLogs)" "0 \<le> lunchTime_st (replayDay dayLogs)"
    using replayDay_nonneg by blast+
next
  assume tc: "getEmployeeTimeCard db i s t = Inr tc"
  show "\<forall>(date, entry)\<in>set (dailyReport_tc tc). 0 \<le> workingTime entry \<and> 0 \<le> lunchTime entry"
  proof (clarify, rule conjI)
    fix date entry assume en: "(date, entry) \<in> set (dailyReport_tc tc)"
    note r = entry_replayed[OF tc en]
    from replayDay_nonneg[OF r(1)] r(2,3)
    show "0 \<le> workingTime entry" "0 \<le> lunchTime entry" by simp_all
  qed
  show w: "0 \<le> totalWorkingTime_tc tc"
    unfolding timecard_returned(3)[OF tc]
    by (rule sum_list_nonneg)
      (use replayDay_nonneg logsOfDay_sorted[OF selectLogs_sorted] in auto)
  assume rate: "0 \<le> payRate (employee_tc tc)"
  show p: "0 \<le> totalPay (totalWorkingTime_tc tc) (payRate (employee_tc tc))"
    using w rate by (rule totalPay_nonneg)
  show "totalPay_tc tc = toFixed (totalPay (totalWorkingTime_tc tc) (payRate (employee_tc tc))) 2"
    by (rule timecard_returned(4)[OF tc])
  then show "CHR ''-'' \<notin> set (totalPay_tc tc)"
    using toFixed_no_minus[OF p] by simp
qed

theorem durations_nonnegative_witness:
  "sorted (map timestamp fullDay) \<and>
   0 \<le> workingTime_st (replayDay fullDay) \<and> 0 \<le> lunchTime_st (replayDay fullDay) \<and>
   getEmployeeTimeCard fullDayDb ''e1'' dayStart dayEnd = Inr fullDayCard \<and>
   0 \<le> workingTime fullDayEntry \<and> 0 \<le> lunchTime fullDayEntry \<and>
   0 \<le> totalWorkingTime_tc fullDayCard \<and>
   0 \<le> payRate (employee_tc fullDayCard) \<and>
   0 \<le> totalPay (totalWorkingTime_tc fullDayCard) (payRate (employee_tc fullDayCard)) \<and>
   CHR ''-'' \<notin> set (totalPay_tc fullDayCard)"
proof -
  have s: "sorted (map timestamp fullDay)"
    by (simp add: fullDay_def punch_simps)
  have r: "0 \<le> payRate (employee_tc fullDayCard)"
    by (simp add: fullDayCard_def emp_simps)
  have d: "dailyReport_tc fullDayCard = [(''2024-01-15'', fullDayEntry)]"
    by (simp add: fullDayCard_def)
  note th = durations_nonnegative[of fullDay fullDayDb "''e1''" dayStart dayEnd fullDayCard]
  from th s have a: "0 \<le> workingTime_st (replayDay fullDay)" "0 \<le> lunchTime_st (replayDay fullDay)"
    by blast+
  from th fullDay_card have b:
    "\<forall>(date, entry)\<in>set (dailyReport_tc fullDayCard). 0 \<le> workingTime entry \<and> 0 \<le> lunchTime entry"
    and c: "0 \<le> totalWorkingTime_tc fullDayCard"
    by blast+
  from th fullDay_card r have p:
    "0 \<le> totalPay (totalWorkingTime_tc fullDayCard) (payRate (employee_tc fullDayCard))"
    and m: "CHR ''-'' \<notin> set (totalPay_tc fullDayCard)"
    by blast+
  from b have e: "0 \<le> workingTime fullDayEntry" "0 \<le> lunchTime fullDayEntry"
    by (simp_all add: d)
  show ?thesis
    by (intro conjI) (rule s a fullDay_card e c r p m)+
qed
end
